theory Spec2Isabelle
  imports Complex_Main
begin

section \<open>Strings and characters\<close>

text \<open>
  A JavaScript string is modelled as a \<open>string\<close>: one \<open>char\<close> per UTF-16 code unit,
  for code units below 256. The character classes below are the members of the
  ECMAScript classes in that range.
\<close>

definition isDigit :: "char \<Rightarrow> bool" where
  "isDigit c = (c \<in> set ''0123456789'')"

definition lowerChars :: string where
  "lowerChars = ''abcdefghijklmnopqrstuvwxyz''"

definition upperChars :: string where
  "upperChars = ''ABCDEFGHIJKLMNOPQRSTUVWXYZ''"

text \<open>\<open>\w\<close>: letters, digits and the underscore.\<close>

definition isWordChar :: "char \<Rightarrow> bool" where
  "isWordChar c = (c \<in> set (lowerChars @ upperChars @ ''0123456789_''))"

text \<open>
  \<open>\s\<close> and the characters removed by \<open>trim()\<close>: tab, line feed, vertical tab, form feed,
  carriage return, space and the non-breaking space U+00A0.
\<close>

definition isSpace :: "char \<Rightarrow> bool" where
  "isSpace c = (c \<in> set [CHR 0x09, CHR 0x0A, CHR 0x0B, CHR 0x0C, CHR 0x0D, CHR 0x20, CHR 0xA0])"

text \<open>The line terminators, which \<open>.\<close> does not match.\<close>

definition isLineTerminator :: "char \<Rightarrow> bool" where
  "isLineTerminator c = (c \<in> set [CHR 0x0A, CHR 0x0D])"

text \<open>
  Canonicalisation of a character under the \<open>i\<close> flag (without the \<open>u\<close> flag): the
  upper-case form. A character outside ASCII is never mapped into ASCII, and every
  letter written in the patterns of this program is ASCII, so only the ASCII letters
  are mapped.
\<close>

definition canon :: "char \<Rightarrow> char" where
  "canon c = (case map_of (zip lowerChars upperChars) c of Some u \<Rightarrow> u | None \<Rightarrow> c)"

definition trimStart :: "string \<Rightarrow> string" where
  "trimStart s = dropWhile isSpace s"

definition trimEnd :: "string \<Rightarrow> string" where
  "trimEnd s = rev (dropWhile isSpace (rev s))"

definition trim :: "string \<Rightarrow> string" where
  "trim s = trimEnd (trimStart s)"

section \<open>Regular expressions with backtracking\<close>

text \<open>
  The patterns of the program are values of \<open>rx\<close>, written as they are in the source.
  \<open>RRep m n r\<close> is the greedy quantifier \<open>r{m,n}\<close> (\<open>None\<close>: no upper bound),
  \<open>RGroup i r\<close> the \<open>i\<close>-th capturing group, \<open>RWordB\<close> is \<open>\b\<close>.
\<close>

datatype rx =
    RChar char
  | RAny
  | RSet "char list"
  | RNotSet "char list"
  | RDigit
  | RSpace
  | RSeq rx rx
  | RAlt rx rx
  | RRep nat "nat option" rx
  | RGroup nat rx
  | RBol
  | REol
  | RWordB
  | REmpty

text \<open>
  A matcher state: the character before the current position (\<open>None\<close> at the start of
  the input), the rest of the input, and the captures made so far (latest first).
\<close>

type_synonym mstate = "char option \<times> string \<times> (nat \<times> string) list"

definition remaining :: "mstate \<Rightarrow> string" where
  "remaining st = fst (snd st)"

definition eatChar :: "(char \<Rightarrow> bool) \<Rightarrow> mstate \<Rightarrow> mstate list" where
  "eatChar P st =
     (case st of (prev, s, caps) \<Rightarrow>
        (case s of [] \<Rightarrow> [] | c # cs \<Rightarrow> if P c then [(Some c, cs, caps)] else []))"

definition atWordBoundary :: "mstate \<Rightarrow> bool" where
  "atWordBoundary st =
     (case st of (prev, s, caps) \<Rightarrow>
        (case prev of None \<Rightarrow> False | Some p \<Rightarrow> isWordChar p)
        \<noteq> (case s of [] \<Rightarrow> False | c # cs \<Rightarrow> isWordChar c))"

definition setCapture :: "nat \<Rightarrow> mstate \<Rightarrow> mstate \<Rightarrow> mstate" where
  "setCapture i st st' =
     (case st' of (prev', s', caps') \<Rightarrow>
        (prev', s', (i, take (length (remaining st) - length s') (remaining st)) # caps'))"

text \<open>
  The greedy quantifier: first every way of matching the body once more (in the body's
  own order of preference) followed by the rest of the repetition, then, when the
  minimum is reached, stopping here. An iteration that consumes nothing is rejected, as
  in ECMAScript; every quantified body of this program consumes at least one character.
\<close>

function iter :: "(mstate \<Rightarrow> mstate list) \<Rightarrow> nat \<Rightarrow> nat option \<Rightarrow> mstate \<Rightarrow> mstate list" where
  "iter f mn mx st =
     (if mx = Some 0 then [st]
      else concat (map (iter f (mn - 1) (map_option (\<lambda>n. n - 1) mx))
                       (filter (\<lambda>st'. length (remaining st') < length (remaining st)) (f st)))
           @ (if mn = 0 then [st] else []))"
  by pat_completeness auto
termination
  by (relation "measure (\<lambda>(f, mn, mx, st). length (remaining st))") auto

declare iter.simps [simp del]

text \<open>
  All the ways a pattern matches at a state, most preferred first: the list a
  backtracking matcher walks through. The flag is the \<open>i\<close> flag.
\<close>

primrec matches :: "bool \<Rightarrow> rx \<Rightarrow> mstate \<Rightarrow> mstate list" where
  "matches ci (RChar a) st = eatChar (\<lambda>c. if ci then canon c = canon a else c = a) st"
| "matches ci RAny st = eatChar (\<lambda>c. \<not> isLineTerminator c) st"
| "matches ci (RSet as) st =
     eatChar (\<lambda>c. if ci then canon c \<in> set (map canon as) else c \<in> set as) st"
| "matches ci (RNotSet as) st =
     eatChar (\<lambda>c. \<not> (if ci then canon c \<in> set (map canon as) else c \<in> set as)) st"
| "matches ci RDigit st = eatChar isDigit st"
| "matches ci RSpace st = eatChar isSpace st"
| "matches ci (RSeq r1 r2) st = concat (map (matches ci r2) (matches ci r1 st))"
| "matches ci (RAlt r1 r2) st = matches ci r1 st @ matches ci r2 st"
| "matches ci (RRep mn mx r) st = iter (matches ci r) mn mx st"
| "matches ci (RGroup i r) st = map (setCapture i st) (matches ci r st)"
| "matches ci RBol st = (if fst st = None then [st] else [])"
| "matches ci REol st = (if remaining st = [] then [st] else [])"
| "matches ci RWordB st = (if atWordBoundary st then [st] else [])"
| "matches ci REmpty st = [st]"

text \<open>Ways of writing patterns.\<close>

definition rseq :: "rx list \<Rightarrow> rx" where
  "rseq rs = foldr RSeq rs REmpty"

definition ralt :: "rx list \<Rightarrow> rx" where
  "ralt rs = (case rs of [] \<Rightarrow> REmpty | _ \<Rightarrow> foldr RAlt (butlast rs) (last rs))"

definition rstr :: "string \<Rightarrow> rx" where
  "rstr s = rseq (map RChar s)"

definition rstar :: "rx \<Rightarrow> rx" where
  "rstar r = RRep 0 None r"

definition rplus :: "rx \<Rightarrow> rx" where
  "rplus r = RRep 1 None r"

definition ropt :: "rx \<Rightarrow> rx" where
  "ropt r = RRep 0 (Some 1) r"

text \<open>
  The result of \<open>str.match(re)\<close> for a pattern without the \<open>g\<close> flag: the first
  start position at which the pattern matches, and there the most preferred match.
  The result holds the matched text \<open>m[0]\<close> and the captures.
\<close>

record rmatch =
  whole :: string
  captures :: "(nat \<times> string) list"

fun searchFrom :: "bool \<Rightarrow> rx \<Rightarrow> char option \<Rightarrow> string \<Rightarrow> rmatch option" where
  "searchFrom ci r prev s =
     (case matches ci r (prev, s, []) of
        st # _ \<Rightarrow> Some \<lparr>whole = take (length s - length (remaining st)) s,
                         captures = snd (snd st)\<rparr>
      | [] \<Rightarrow> (case s of [] \<Rightarrow> None | c # cs \<Rightarrow> searchFrom ci r (Some c) cs))"

definition matchRe :: "bool \<Rightarrow> rx \<Rightarrow> string \<Rightarrow> rmatch option" where
  "matchRe ci r s = searchFrom ci r None s"

text \<open>\<open>re.test(str)\<close>.\<close>

definition testRe :: "bool \<Rightarrow> rx \<Rightarrow> string \<Rightarrow> bool" where
  "testRe ci r s = (matchRe ci r s \<noteq> None)"

text \<open>\<open>m[i]\<close> of a match; a group that took no part in the match is \<open>undefined\<close>.\<close>

definition grp :: "rmatch \<Rightarrow> nat \<Rightarrow> string option" where
  "grp m i = map_of (captures m) i"

text \<open>
  The text of a group that takes part in every match of its pattern (a group that is
  neither optional nor in one branch of an alternative only): \<open>m[i]\<close> is a string for each
  group the program reads, see \<open>groups_of_patterns\<close> below.
\<close>

definition grpText :: "rmatch \<Rightarrow> nat \<Rightarrow> string" where
  "grpText m i = (case grp m i of Some s \<Rightarrow> s | None \<Rightarrow> [])"

section \<open>Numbers\<close>

text \<open>
  A JavaScript number is a binary64 value: \<open>Num v\<close> is the finite value \<open>v\<close> (a
  rational that binary64 holds; \<open>Num 0\<close> is +0), \<open>NegZero\<close> is -0.
\<close>

datatype number = Num rat | NegZero | PosInfinity | NegInfinity | NaN

text \<open>The number of binary digits of a positive integer.\<close>

function bitLength :: "int \<Rightarrow> int" where
  "bitLength n = (if n \<le> 0 then 0 else 1 + bitLength (n div 2))"
  by pat_completeness auto
termination
  by (relation "measure nat") auto

declare bitLength.simps [simp del]

definition pow2 :: "int \<Rightarrow> rat" where
  "pow2 e = (if 0 \<le> e then 2 ^ nat e else 1 / 2 ^ nat (- e))"

text \<open>Whether \<open>2 ^ e \<le> a / b\<close>, for \<open>b > 0\<close>.\<close>

definition atLeastPow2 :: "int \<Rightarrow> int \<Rightarrow> int \<Rightarrow> bool" where
  "atLeastPow2 a b e = (if 0 \<le> e then b * 2 ^ nat e \<le> a else b \<le> a * 2 ^ nat (- e))"

text \<open>The \<open>e\<close> with \<open>2 ^ e \<le> a / b < 2 ^ (e + 1)\<close>, for \<open>a > 0\<close> and \<open>b > 0\<close>.\<close>

definition floorLog2 :: "int \<Rightarrow> int \<Rightarrow> int" where
  "floorLog2 a b =
     (let e0 = bitLength a - bitLength b
      in if atLeastPow2 a b e0 then e0 else e0 - 1)"

text \<open>
  \<open>a / b\<close> rounded to the nearest integer, a tie going to the even one, for \<open>a \<ge> 0\<close> and
  \<open>b > 0\<close>.
\<close>

definition roundHalfEven :: "int \<Rightarrow> int \<Rightarrow> int" where
  "roundHalfEven a b =
     (let f = a div b; r = a mod b
      in if 2 * r < b then f
         else if b < 2 * r then f + 1
         else if even f then f else f + 1)"

text \<open>
  The number value of the non-negative real \<open>a / b\<close> (\<open>a \<ge> 0\<close>, \<open>b > 0\<close>): the nearest
  binary64 value, a tie going to the even significand. The value is \<open>m * 2 ^ q\<close> with a
  significand \<open>m\<close> of at most 53 bits and \<open>q\<close> the exponent of the last place, at
  least -1074; it is infinity when \<open>m * 2 ^ q\<close> reaches \<open>2 ^ 1024\<close>, that is when
  \<open>q > 971\<close>, or \<open>q = 971\<close> and \<open>m = 2 ^ 53\<close>.
\<close>

definition roundBinary64 :: "int \<Rightarrow> int \<Rightarrow> number" where
  "roundBinary64 a b =
     (if a = 0 then Num 0
      else
        (let e = floorLog2 a b;
             q = max (e - 52) (- 1074);
             m = (if 0 \<le> q then roundHalfEven a (b * 2 ^ nat q)
                  else roundHalfEven (a * 2 ^ nat (- q)) b)
         in if 971 < q \<or> (q = 971 \<and> 2 ^ 53 \<le> m) then PosInfinity
            else Num (of_int m * pow2 q)))"

definition negateNumber :: "number \<Rightarrow> number" where
  "negateNumber n =
     (case n of
        Num v \<Rightarrow> (if v = 0 then NegZero else Num (- v))
      | NegZero \<Rightarrow> Num 0
      | PosInfinity \<Rightarrow> NegInfinity
      | NegInfinity \<Rightarrow> PosInfinity
      | NaN \<Rightarrow> NaN)"

definition digitVal :: "char \<Rightarrow> nat" where
  "digitVal c = length (takeWhile (\<lambda>d. d \<noteq> c) ''0123456789'')"

definition digitsVal :: "string \<Rightarrow> nat" where
  "digitsVal ds = foldl (\<lambda>n c. 10 * n + digitVal c) 0 ds"

text \<open>The value of a digit in a base up to 16, either case of the letters.\<close>

definition hexVal :: "char \<Rightarrow> nat" where
  "hexVal c =
     (if c \<in> set ''0123456789abcdef''
      then length (takeWhile (\<lambda>d. d \<noteq> c) ''0123456789abcdef'')
      else length (takeWhile (\<lambda>d. d \<noteq> c) ''0123456789ABCDEF''))"

text \<open>The value of a run of digits in a base, as an integer.\<close>

definition digitsInt :: "int \<Rightarrow> string \<Rightarrow> int" where
  "digitsInt base ds = foldl (\<lambda>n c. base * n + int (hexVal c)) 0 ds"

text \<open>
  \<open>0x\<close>, \<open>0o\<close> and \<open>0b\<close> literals (either case of the letter, at least one digit,
  no sign): the value, or \<open>None\<close> for a text of another form.
\<close>

definition nonDecimalInteger :: "string \<Rightarrow> int option" where
  "nonDecimalInteger s =
     (case s of
        z # x # ds \<Rightarrow>
          (let base = (if x \<in> set ''xX'' then 16 else if x \<in> set ''oO'' then 8
                       else if x \<in> set ''bB'' then 2 else 0)
           in if z = CHR ''0'' \<and> base \<noteq> 0 \<and> ds \<noteq> []
                 \<and> list_all (\<lambda>c. c \<in> set ''0123456789abcdefABCDEF'' \<and> hexVal c < base) ds
              then Some (digitsInt (int base) ds)
              else None)
      | _ \<Rightarrow> None)"

text \<open>
  The exponent part of a decimal literal, \<open>e\<close> or \<open>E\<close>, an optional sign and digits: its
  value, 0 when there is no exponent part, \<open>None\<close> when the text is no exponent part.
\<close>

definition exponentPart :: "string \<Rightarrow> int option" where
  "exponentPart s =
     (case s of
        [] \<Rightarrow> Some 0
      | c # r \<Rightarrow>
          (if c \<in> set ''eE'' then
             (case r of
                [] \<Rightarrow> None
              | d # ds \<Rightarrow>
                  (if d = CHR ''-'' then
                     (if ds \<noteq> [] \<and> list_all isDigit ds then Some (- digitsInt 10 ds) else None)
                   else if d = CHR ''+'' then
                     (if ds \<noteq> [] \<and> list_all isDigit ds then Some (digitsInt 10 ds) else None)
                   else if list_all isDigit (d # ds) then Some (digitsInt 10 (d # ds))
                   else None))
           else None))"

text \<open>
  An unsigned decimal literal: \<open>Infinity\<close>, or digits with an optional fraction and an
  optional exponent part, at least one digit before or after the point.
\<close>

definition unsignedDecimal :: "string \<Rightarrow> number" where
  "unsignedDecimal s =
     (if s = ''Infinity'' then PosInfinity
      else
        (let ip = takeWhile isDigit s;
             r = dropWhile isDigit s;
             fp = (case r of [] \<Rightarrow> [] | c # x \<Rightarrow> if c = CHR ''.'' then takeWhile isDigit x else []);
             r' = (case r of [] \<Rightarrow> [] | c # x \<Rightarrow> if c = CHR ''.'' then dropWhile isDigit x else r)
         in if ip = [] \<and> fp = [] then NaN
            else
              (case exponentPart r' of
                 None \<Rightarrow> NaN
               | Some ex \<Rightarrow>
                   (let n = digitsInt 10 (ip @ fp); k = ex - int (length fp)
                    in if 0 \<le> k then roundBinary64 (n * 10 ^ nat k) 1
                       else roundBinary64 n (10 ^ nat (- k))))))"

text \<open>
  \<open>Number(s)\<close> on a string: surrounding white space is dropped; the empty string is 0;
  a literal with radix prefix has its value; a decimal literal with an optional sign has
  its value; every other text is \<open>NaN\<close>.
\<close>

definition Number :: "string \<Rightarrow> number" where
  "Number s =
     (case trim s of
        [] \<Rightarrow> Num 0
      | c # cs \<Rightarrow>
          (case nonDecimalInteger (c # cs) of
             Some n \<Rightarrow> roundBinary64 n 1
           | None \<Rightarrow>
               (if c = CHR ''-'' then negateNumber (unsignedDecimal cs)
                else if c = CHR ''+'' then unsignedDecimal cs
                else unsignedDecimal (c # cs))))"

text \<open>\<open>unmoney\<close>: \<open>null\<close> and \<open>undefined\<close> are \<open>None\<close>.\<close>

definition unmoney :: "string option \<Rightarrow> number option" where
  "unmoney s =
     (case s of
        None \<Rightarrow> None
      | Some t \<Rightarrow>
          (let v = trim (filter (\<lambda>c. c \<noteq> CHR '','') (filter (\<lambda>c. c \<noteq> CHR ''$'') t))
           in if v = [] then None else Some (Number v)))"

section \<open>Table locator\<close>

definition headerRe :: rx where
  "headerRe = rstr ''ACTIVITY''"

definition descRe :: rx where
  "descRe = rstr ''DESCRIPTION''"

definition qtyRe :: rx where
  "qtyRe = ralt [rseq [RWordB, rstr ''QTY'', RWordB], rseq [RWordB, rstr ''QUANTITY'', RWordB]]"

definition rateRe :: rx where
  "rateRe = ralt [rseq [RWordB, rstr ''RATE'', RWordB], rseq [RWordB, rstr ''PRICE'', RWordB]]"

definition amtRe :: rx where
  "amtRe = ralt [rseq [RWordB, rstr ''AMOUNT'', RWordB],
                 rseq [RWordB, rstr ''EXT'', ropt (RChar CHR ''.''), RWordB],
                 rseq [RWordB, rstr ''TOTAL'', RWordB]]"

text \<open>The test of one line in \<open>findTableStart\<close>: all five patterns, with the \<open>i\<close> flag.\<close>

definition isTableHeader :: "string \<Rightarrow> bool" where
  "isTableHeader l =
     (testRe True headerRe l \<and> testRe True descRe l \<and> testRe True qtyRe l
      \<and> testRe True rateRe l \<and> testRe True amtRe l)"

fun findTableStartFrom :: "nat \<Rightarrow> string list \<Rightarrow> int" where
  "findTableStartFrom i [] = - 1"
| "findTableStartFrom i (l # ls) =
     (if isTableHeader l then int i else findTableStartFrom (Suc i) ls)"

definition findTableStart :: "string list \<Rightarrow> int" where
  "findTableStart lines = findTableStartFrom 0 lines"

section \<open>Row parser\<close>

definition stopKeywordRe :: rx where
  "stopKeywordRe =
     rseq [RBol,
           RGroup 1 (ralt [rstr ''Subtotal'', rstr ''Sub-Total'', rstr ''Tax'',
                           rstr ''Sales Tax'', rstr ''Total'', rstr ''Balance Due'']),
           RWordB]"

definition shouldStopRow :: "string \<Rightarrow> bool" where
  "shouldStopRow line =
     (testRe True stopKeywordRe line
      \<or> testRe True (rseq [RBol, rstr ''INVOICE'', RWordB]) line
      \<or> testRe True (rseq [RBol, rstr ''Page '', rplus RDigit]) line)"

definition QTY_RE :: rx where
  "QTY_RE = rseq [rplus RDigit, ropt (rseq [RChar CHR ''.'', rplus RDigit])]"

definition MONEY_RE :: rx where
  "MONEY_RE =
     ralt [rseq [ropt (RChar CHR ''-''), ropt (RChar CHR ''$''), RRep 1 (Some 3) RDigit,
                 rstar (rseq [RChar CHR '','', RRep 3 (Some 3) RDigit]),
                 ropt (rseq [RChar CHR ''.'', RRep 2 (Some 2) RDigit])],
           rseq [ropt (RChar CHR ''-''), ropt (RChar CHR ''$''), rplus RDigit,
                 ropt (rseq [RChar CHR ''.'', RRep 2 (Some 2) RDigit])]]"

definition tailRe :: rx where
  "tailRe = rseq [RGroup 1 QTY_RE, rplus RSpace, RGroup 2 MONEY_RE, rplus RSpace,
                  RGroup 3 MONEY_RE, REol]"

text \<open>\<open>/^([A-Za-z0-9._\-/]+)\s+(.*)$/\<close>, used for the left part of a row and for a seed.\<close>

definition leftRe :: rx where
  "leftRe = rseq [RBol, RGroup 1 (rplus (RSet (upperChars @ lowerChars @ ''0123456789._-/''))),
                  rplus RSpace, RGroup 2 (rstar RAny), REol]"

record item =
  activity :: string
  description :: string
  qty :: "number option"
  rate :: "number option"
  amount :: "number option"

text \<open>\<open>str.lastIndexOf(sub)\<close>: the last position at which \<open>sub\<close> occurs, or -1.\<close>

fun lastIndexFrom :: "string \<Rightarrow> string \<Rightarrow> nat \<Rightarrow> int" where
  "lastIndexFrom s sub 0 = (if take (length sub) s = sub then 0 else - 1)"
| "lastIndexFrom s sub (Suc i) =
     (if take (length sub) (drop (Suc i) s) = sub then int (Suc i) else lastIndexFrom s sub i)"

definition lastIndexOf :: "string \<Rightarrow> string \<Rightarrow> int" where
  "lastIndexOf s sub =
     (if length sub \<le> length s then lastIndexFrom s sub (length s - length sub) else - 1)"

text \<open>\<open>str.slice(0, e)\<close>: a negative end counts from the end of the string.\<close>

definition sliceTo :: "string \<Rightarrow> int \<Rightarrow> string" where
  "sliceTo s e = (if e < 0 then take (nat (int (length s) + e)) s else take (nat e) s)"

text \<open>
  One turn of the loop of \<open>parseLines\<close> on the line \<open>raw\<close>, with \<open>out\<close> the items so far:
  \<open>None\<close> is \<open>break\<close>, \<open>Some out'\<close> the items after the turn.
\<close>

definition rowStep :: "item list \<Rightarrow> string \<Rightarrow> item list option" where
  "rowStep out raw =
     (if shouldStopRow raw then None
      else if trim raw = [] then Some out
      else
        (case matchRe False tailRe raw of
           Some mTail \<Rightarrow>
             (let trailStart = lastIndexOf raw (whole mTail);
                  left = trim (sliceTo raw trailStart);
                  new = (case matchRe False leftRe left of
                           Some mLeft \<Rightarrow>
                             \<lparr>activity = trim (grpText mLeft 1),
                              description = trim (grpText mLeft 2),
                              qty = Some (Number (grpText mTail 1)),
                              rate = unmoney (grp mTail 2),
                              amount = unmoney (grp mTail 3)\<rparr>
                         | None \<Rightarrow>
                             \<lparr>activity = [],
                              description = left,
                              qty = Some (Number (grpText mTail 1)),
                              rate = unmoney (grp mTail 2),
                              amount = unmoney (grp mTail 3)\<rparr>)
              in Some (out @ [new]))
         | None \<Rightarrow>
             (case (if out = [] then matchRe False leftRe raw else None) of
                Some mSeed \<Rightarrow>
                  Some (out @ [\<lparr>activity = trim (grpText mSeed 1),
                                 description = trim (grpText mSeed 2),
                                 qty = None, rate = None, amount = None\<rparr>])
              | None \<Rightarrow>
                  (if out \<noteq> [] then
                     Some (butlast out @
                           [(last out)\<lparr>description :=
                               (if description (last out) \<noteq> []
                                then description (last out) @ '' '' else []) @ trim raw\<rparr>])
                   else Some out))))"

fun parseLoop :: "item list \<Rightarrow> string list \<Rightarrow> item list" where
  "parseLoop out [] = out"
| "parseLoop out (raw # rest) =
     (case rowStep out raw of None \<Rightarrow> out | Some out' \<Rightarrow> parseLoop out' rest)"

definition parseLines :: "string list \<Rightarrow> int \<Rightarrow> item list" where
  "parseLines lines headerIdx =
     (if headerIdx < 0 then [] else parseLoop [] (drop (nat (headerIdx + 1)) lines))"

section \<open>Text normalizer\<close>

fun splitOn :: "char \<Rightarrow> string \<Rightarrow> string list" where
  "splitOn d [] = [[]]"
| "splitOn d (c # cs) =
     (if c = d then [] # splitOn d cs
      else (case splitOn d cs of x # xs \<Rightarrow> (c # x) # xs | [] \<Rightarrow> [[c]]))"

definition cleanLines :: "string \<Rightarrow> string list" where
  "cleanLines text =
     filter (\<lambda>l. length l > 0)
       (map (\<lambda>l. trimStart (trimEnd (map (\<lambda>c. if c = CHR 0xA0 then CHR 0x20 else c) l)))
            (splitOn CHR 0x0A (filter (\<lambda>c. c \<noteq> CHR 0x0D) text)))"

section \<open>Field extractors\<close>

text \<open>
  The loop \<open>for (const l of ls) { const m = l.match(re); if (m) return ... }\<close>: the match
  on the first line that has one.
\<close>

fun firstMatch :: "bool \<Rightarrow> rx \<Rightarrow> string list \<Rightarrow> rmatch option" where
  "firstMatch ci re [] = None"
| "firstMatch ci re (l # ls) =
     (case matchRe ci re l of Some m \<Rightarrow> Some m | None \<Rightarrow> firstMatch ci re ls)"

subsection \<open>Date\<close>

definition digitChar :: "nat \<Rightarrow> char" where
  "digitChar n = ''0123456789'' ! (n mod 10)"

fun natToString :: "nat \<Rightarrow> string" where
  "natToString n = (if n < 10 then [digitChar n] else natToString (n div 10) @ [digitChar n])"

declare natToString.simps [simp del]

definition padStart2 :: "string \<Rightarrow> string" where
  "padStart2 s = replicate (2 - length s) CHR ''0'' @ s"

definition datePattern :: rx where
  "datePattern = rseq [RGroup 1 (RRep 1 (Some 2) RDigit), RSet ''/-'',
                       RGroup 2 (RRep 1 (Some 2) RDigit), RSet ''/-'',
                       RGroup 3 (RRep 2 (Some 4) RDigit)]"

text \<open>\<open>parseDate\<close>: \<open>null\<close>, \<open>undefined\<close> and the empty string give \<open>null\<close>.\<close>

definition parseDate :: "string option \<Rightarrow> string option" where
  "parseDate raw =
     (case raw of
        None \<Rightarrow> None
      | Some r \<Rightarrow>
          (if r = [] then None
           else (case matchRe False datePattern r of
                   None \<Rightarrow> None
                 | Some m \<Rightarrow>
                     (let mm = grpText m 1; dd = grpText m 2; yyyy = grpText m 3;
                          yyyy' = (if length yyyy = 2
                                   then (let yy = digitsVal yyyy
                                         in natToString (if yy \<ge> 70 then 1900 + yy else 2000 + yy))
                                   else yyyy)
                      in Some (padStart2 mm @ ''/'' @ padStart2 dd @ ''/'' @ yyyy')))))"

definition bareDate :: rx where
  "bareDate = rseq [RRep 1 (Some 2) RDigit, RSet ''/-'', RRep 1 (Some 2) RDigit, RSet ''/-'',
                    RRep 2 (Some 4) RDigit]"

definition labeledDateRe :: rx where
  "labeledDateRe =
     rseq [ralt [rseq [rstr ''Invoice'', rstar RSpace, rstr ''Date''], rstr ''Date''],
           rstar RSpace, ropt (RSet '':-''), rstar RSpace, RGroup 1 bareDate]"

definition findDate :: "string list \<Rightarrow> string option" where
  "findDate lines =
     (case firstMatch True labeledDateRe (take 80 lines) of
        Some m \<Rightarrow> parseDate (grp m 1)
      | None \<Rightarrow>
          (case firstMatch False (RGroup 1 bareDate) (take 50 lines) of
             Some m \<Rightarrow> parseDate (grp m 1)
           | None \<Rightarrow> None))"

subsection \<open>Customer\<close>

definition custLabel :: rx where
  "custLabel = ralt [rstr ''Customer'', rstr ''Bill To'', rstr ''Sold To'']"

definition custMarkers :: "rx list" where
  "custMarkers =
     [rseq [RBol, custLabel, rstar RSpace, RChar CHR '':'', rstar RSpace,
            RGroup 1 (rplus RAny), REol],
      rseq [RBol, custLabel, rplus RSpace, RGroup 1 (rplus RAny), REol]]"

text \<open>The inner loop over the markers, for one line.\<close>

fun custMarkerMatch :: "rx list \<Rightarrow> string \<Rightarrow> string option" where
  "custMarkerMatch [] l = None"
| "custMarkerMatch (re # res) l =
     (case matchRe True re l of
        Some m \<Rightarrow> Some (trim (grpText m 1))
      | None \<Rightarrow> custMarkerMatch res l)"

fun custFirstPass :: "string list \<Rightarrow> string option" where
  "custFirstPass [] = None"
| "custFirstPass (l # ls) =
     (case custMarkerMatch custMarkers l of Some c \<Rightarrow> Some c | None \<Rightarrow> custFirstPass ls)"

text \<open>\<open>lines.findIndex(p)\<close>: the first index at which \<open>p\<close> holds, or -1.\<close>

fun findIndexFrom :: "nat \<Rightarrow> (string \<Rightarrow> bool) \<Rightarrow> string list \<Rightarrow> int" where
  "findIndexFrom i p [] = - 1"
| "findIndexFrom i p (l # ls) = (if p l then int i else findIndexFrom (Suc i) p ls)"

definition findIndex :: "(string \<Rightarrow> bool) \<Rightarrow> string list \<Rightarrow> int" where
  "findIndex p lines = findIndexFrom 0 p lines"

definition custBlockRe :: rx where
  "custBlockRe = ralt [rstr ''Bill To'', rstr ''Sold To'', rstr ''Customer'']"

definition addressLabelRe :: rx where
  "addressLabelRe =
     rseq [RBol,
           RGroup 1 (ralt [rstr ''Address'', rstr ''Phone'', rstr ''Email'', rstr ''Fax'',
                           rstr ''Attn'', rstr ''City'', rstr ''State'', rstr ''Zip'']),
           RAlt (RChar CHR '':'') RSpace]"

text \<open>
  The second loop of \<open>findCustomer\<close>, over the indices from \<open>idx + 1\<close> up to
  \<open>min (idx + 5) (length lines)\<close>.
\<close>

fun custSecondPass :: "string list \<Rightarrow> nat list \<Rightarrow> string option" where
  "custSecondPass lines [] = None"
| "custSecondPass lines (i # is) =
     (let t = lines ! i
      in if \<not> testRe True addressLabelRe t \<and> length t > 3 then Some (trim t)
         else custSecondPass lines is)"

definition findCustomer :: "string list \<Rightarrow> string option" where
  "findCustomer lines =
     (case custFirstPass (take 40 lines) of
        Some c \<Rightarrow> Some c
      | None \<Rightarrow>
          (let idx = findIndex (testRe True custBlockRe) lines
           in if idx \<ge> 0
              then custSecondPass lines [nat idx + 1 ..< min (nat idx + 5) (length lines)]
              else None))"

subsection \<open>Invoice number and sales rep\<close>

definition idChars :: string where
  "idChars = upperChars @ ''0123456789-''"

definition invoiceRe :: rx where
  "invoiceRe =
     rseq [rstr ''Invoice'', rstar RSpace,
           ropt (ralt [RChar CHR ''#'', rseq [rstr ''No'', ropt (RChar CHR ''.'')],
                       rstr ''Number'']),
           rstar RSpace, ropt (RSet '':-''), rstar RSpace,
           RGroup 1 (rplus (RSet idChars))]"

definition invoiceWordRe :: rx where
  "invoiceWordRe =
     rseq [RWordB, rstr ''INVOICE'', rplus RSpace, RGroup 1 (rplus (RSet idChars))]"

definition findInvoice :: "string list \<Rightarrow> string option" where
  "findInvoice lines =
     (case firstMatch True invoiceRe (take 80 lines) of
        Some m \<Rightarrow> Some (trim (grpText m 1))
      | None \<Rightarrow>
          (case firstMatch True invoiceWordRe (take 80 lines) of
             Some m \<Rightarrow> Some (trim (grpText m 1))
           | None \<Rightarrow> None))"

definition repRe :: rx where
  "repRe =
     rseq [ralt [rseq [rstr ''Sales'', rstar RSpace, rstr ''Rep''], rstr ''Salesperson'',
                 rseq [rstr ''Sold'', rstar RSpace, rstr ''By''], rstr ''Rep''],
           rstar RSpace, ropt (RSet '':-''), rstar RSpace,
           RGroup 1 (rplus (RSet (upperChars @ lowerChars @ '' .,'' @ [CHR 0x27] @ ''-''))),
           ralt [RRep 2 None RSpace, REol]]"

definition findRep :: "string list \<Rightarrow> string option" where
  "findRep lines =
     (case firstMatch True repRe (take 120 lines) of
        Some m \<Rightarrow> Some (trim (grpText m 1))
      | None \<Rightarrow> None)"

subsection \<open>ZIP code\<close>

definition usStates :: "string list" where
  "usStates =
     [''AL'', ''AK'', ''AZ'', ''AR'', ''CA'', ''CO'', ''CT'', ''DE'', ''FL'', ''GA'', ''HI'', ''ID'',
      ''IL'', ''IN'', ''IA'', ''KS'', ''KY'', ''LA'', ''ME'', ''MD'', ''MA'', ''MI'', ''MN'', ''MS'',
      ''MO'', ''MT'', ''NE'', ''NV'', ''NH'', ''NJ'', ''NM'', ''NY'', ''NC'', ''ND'', ''OH'', ''OK'',
      ''OR'', ''PA'', ''RI'', ''SC'', ''SD'', ''TN'', ''TX'', ''UT'', ''VT'', ''VA'', ''WA'', ''WV'',
      ''WI'', ''WY'']"

definition STATE_RE :: rx where
  "STATE_RE = rseq [RWordB, ralt (map rstr usStates), RWordB]"

definition zipRe :: rx where
  "zipRe = rseq [RWordB,
                 RGroup 1 (rseq [RRep 5 (Some 5) RDigit,
                                 ropt (rseq [RChar CHR ''-'', RRep 4 (Some 4) RDigit])]),
                 RWordB]"

text \<open>\<open>m[1]\<close> of \<open>l.match(zipRe)\<close>, when there is a match.\<close>

definition zipOf :: "string \<Rightarrow> string option" where
  "zipOf l = (case matchRe False zipRe l of Some m \<Rightarrow> Some (grpText m 1) | None \<Rightarrow> None)"

fun zipFirstPass :: "string list \<Rightarrow> string option" where
  "zipFirstPass [] = None"
| "zipFirstPass (l # ls) =
     (if testRe False STATE_RE l \<and> testRe False zipRe l
      then (case zipOf l of Some z \<Rightarrow> Some z | None \<Rightarrow> zipFirstPass ls)
      else zipFirstPass ls)"

fun zipSecondPass :: "string list \<Rightarrow> string option" where
  "zipSecondPass [] = None"
| "zipSecondPass (l # ls) = (case zipOf l of Some z \<Rightarrow> Some z | None \<Rightarrow> zipSecondPass ls)"

definition findZip :: "string list \<Rightarrow> string option" where
  "findZip lines =
     (case zipFirstPass (take 50 lines) of
        Some z \<Rightarrow> Some z
      | None \<Rightarrow> zipSecondPass (rev (take 50 lines)))"

section \<open>CSV encoder\<close>

definition dquote :: char where
  "dquote = CHR 0x22"

text \<open>\<open>escapeCsv\<close>: \<open>null\<close> and \<open>undefined\<close> are \<open>None\<close>.\<close>

definition escapeCsv :: "string option \<Rightarrow> string" where
  "escapeCsv v =
     (case v of
        None \<Rightarrow> []
      | Some str \<Rightarrow>
          (if testRe False (RSet [CHR '','', CHR 0x0D, CHR 0x0A, dquote]) str
           then [dquote] @ concat (map (\<lambda>c. if c = dquote then [dquote, dquote] else [c]) str)
                @ [dquote]
           else str))"

text \<open>\<open>parts.join(sep)\<close>.\<close>

fun join :: "string \<Rightarrow> string list \<Rightarrow> string" where
  "join sep [] = []"
| "join sep [x] = x"
| "join sep (x # y # zs) = x @ sep @ join sep (y # zs)"

text \<open>\<open>rows.map(r => r.map(escapeCsv).join(",")).join("\n")\<close>.\<close>

definition csvText :: "string list list \<Rightarrow> string" where
  "csvText rows = join [CHR 0x0A] (map (\<lambda>r. join '','' (map (\<lambda>c. escapeCsv (Some c)) r)) rows)"

record header =
  customer :: "string option"
  rep :: "string option"
  date :: "string option"
  invoice :: "string option"
  zip :: "string option"

text \<open>\<open>v ?? ""\<close>.\<close>

definition orEmpty :: "string option \<Rightarrow> string" where
  "orEmpty v = (case v of None \<Rightarrow> [] | Some s \<Rightarrow> s)"

definition headerCells :: "header \<Rightarrow> string list" where
  "headerCells h =
     [orEmpty (customer h), orEmpty (rep h), orEmpty (date h), orEmpty (invoice h),
      orEmpty (zip h)]"

definition headerCsvRows :: "header \<Rightarrow> string list list" where
  "headerCsvRows h = [[''Customer'', ''Rep'', ''Date'', ''Invoice'', ''Zip''], headerCells h]"

definition headerCsv :: "header \<Rightarrow> string" where
  "headerCsv h = csvText (headerCsvRows h)"

text \<open>
  The rows of the line-items table. \<open>String(n)\<close> of a number is a parameter, \<open>str\<close>.
\<close>

definition numCell :: "(number \<Rightarrow> string) \<Rightarrow> number option \<Rightarrow> string" where
  "numCell str v = (case v of Some n \<Rightarrow> str n | None \<Rightarrow> [])"

definition linesCsvRows :: "(number \<Rightarrow> string) \<Rightarrow> item list \<Rightarrow> string list list" where
  "linesCsvRows str items =
     [''Activity'', ''Description'', ''Qty'', ''Rate'', ''Amount'']
     # map (\<lambda>it. [activity it, description it, numCell str (qty it), numCell str (rate it),
                    numCell str (amount it)]) items"

definition linesCsv :: "(number \<Rightarrow> string) \<Rightarrow> item list \<Rightarrow> string" where
  "linesCsv str items = csvText (linesCsvRows str items)"

section \<open>Request handler\<close>

text \<open>The value of \<open>JSON.parse\<close>; an object is the list of its members, each key once.\<close>

datatype json =
    JNull
  | JBool bool
  | JNumber number
  | JString string
  | JArray "json list"
  | JObject "(string \<times> json) list"

text \<open>\<open>body.base64\<close> for a body that is not \<open>null\<close>; \<open>None\<close> is \<open>undefined\<close>.\<close>

definition base64Prop :: "json \<Rightarrow> json option" where
  "base64Prop b = (case b of JObject kvs \<Rightarrow> map_of kvs ''base64'' | _ \<Rightarrow> None)"

definition truthy :: "json \<Rightarrow> bool" where
  "truthy v =
     (case v of
        JNull \<Rightarrow> False
      | JBool b \<Rightarrow> b
      | JNumber n \<Rightarrow> n \<noteq> Num 0 \<and> n \<noteq> NegZero \<and> n \<noteq> NaN
      | JString s \<Rightarrow> s \<noteq> []
      | JArray _ \<Rightarrow> True
      | JObject _ \<Rightarrow> True)"

type_synonym bytes = "nat list"

text \<open>
  The collaborators of the handler. A collaborator that can throw returns \<open>Inl\<close> of the
  text the handler reports for the exception, \<open>String(err?.message || err)\<close>. The two
  messages are those of the \<open>TypeError\<close> the engine throws for reading a property of
  \<open>undefined\<close> (\<open>event.headers["content-type"]\<close> without headers) and for
  destructuring \<open>null\<close>.
\<close>

record env =
  jsonParse :: "string \<Rightarrow> string + json"
  undefinedHeadersMessage :: string
  nullDestructureMessage :: string
  bufferFrom :: "json \<Rightarrow> string + bytes"
  pdfParse :: "bytes \<Rightarrow> string + string option"
  zipGenerate :: "(string \<times> string) list \<Rightarrow> string + bytes"
  toBase64 :: "bytes \<Rightarrow> string"
  numToString :: "number \<Rightarrow> string"

text \<open>The calls made to the collaborators, in order.\<close>

datatype call =
    CallJsonParse string
  | CallBufferFrom json
  | CallPdfParse bytes
  | CallZipGenerate "(string \<times> string) list"

text \<open>An event; \<open>None\<close> is \<open>undefined\<close> (or \<open>null\<close> for the body).\<close>

record event =
  ev_headers :: "(string \<rightharpoonup> string) option"
  ev_body :: "string option"

text \<open>
  A response; an error response has no headers and no \<open>isBase64Encoded\<close> (\<open>False\<close> here).
\<close>

record response =
  statusCode :: nat
  resp_headers :: "(string \<times> string) list"
  resp_body :: string
  isBase64Encoded :: bool

text \<open>\<open>str.includes(sub)\<close>.\<close>

fun includesStr :: "string \<Rightarrow> string \<Rightarrow> bool" where
  "includesStr [] sub = (sub = [])"
| "includesStr (c # cs) sub = (take (length sub) (c # cs) = sub \<or> includesStr cs sub)"

definition hexDigit :: "nat \<Rightarrow> char" where
  "hexDigit n = ''0123456789abcdef'' ! (n mod 16)"

text \<open>\<open>JSON.stringify\<close> of a string.\<close>

definition jsonQuoteChar :: "char \<Rightarrow> string" where
  "jsonQuoteChar c =
     (if c = dquote then [CHR 0x5C, dquote]
      else if c = CHR 0x5C then [CHR 0x5C, CHR 0x5C]
      else if c = CHR 0x08 then [CHR 0x5C, CHR ''b'']
      else if c = CHR 0x0C then [CHR 0x5C, CHR ''f'']
      else if c = CHR 0x0A then [CHR 0x5C, CHR ''n'']
      else if c = CHR 0x0D then [CHR 0x5C, CHR ''r'']
      else if c = CHR 0x09 then [CHR 0x5C, CHR ''t'']
      else if (of_char c :: nat) < 32
           then [CHR 0x5C, CHR ''u'', CHR ''0'', CHR ''0'', hexDigit (of_char c div 16),
                 hexDigit (of_char c)]
      else [c])"

definition jsonQuote :: "string \<Rightarrow> string" where
  "jsonQuote s = [dquote] @ concat (map jsonQuoteChar s) @ [dquote]"

text \<open>\<open>JSON.stringify({ error: msg })\<close>.\<close>

definition errorBody :: "string \<Rightarrow> string" where
  "errorBody msg = ''{'' @ jsonQuote ''error'' @ '':'' @ jsonQuote msg @ ''}''"

definition errorResponse :: "nat \<Rightarrow> string \<Rightarrow> response" where
  "errorResponse code msg =
     \<lparr>statusCode = code, resp_headers = [], resp_body = errorBody msg, isBase64Encoded = False\<rparr>"

definition sendJsonMessage :: string where
  "sendJsonMessage = ''Send JSON: { filename, mimeType, base64 }''"

definition missingBase64Message :: string where
  "missingBase64Message = ''Missing '' @ [CHR 0x27] @ ''base64'' @ [CHR 0x27] @ '' PDF content''"

text \<open>\<open>safe\<close>: every run of characters outside \<open>[A-Za-z0-9.-]\<close> becomes one underscore.\<close>

fun safeFrom :: "bool \<Rightarrow> string \<Rightarrow> string" where
  "safeFrom inRun [] = []"
| "safeFrom inRun (c # cs) =
     (if c \<in> set (upperChars @ lowerChars @ ''0123456789.-'') then c # safeFrom False cs
      else if inRun then safeFrom True cs
      else CHR ''_'' # safeFrom True cs)"

definition safe :: "string option \<Rightarrow> string" where
  "safe s = safeFrom False (orEmpty s)"

definition zipName :: "string option \<Rightarrow> string option \<Rightarrow> string option \<Rightarrow> string" where
  "zipName c r i =
     (let parts = filter (\<lambda>p. p \<noteq> []) [safe c, safe r, safe i]
      in if length parts > 0 then join ''_'' parts @ ''_extract.zip'' else ''invoice_extract.zip'')"

text \<open>The part of the handler after the text of the PDF is known.\<close>

definition respond :: "env \<Rightarrow> string \<Rightarrow> call list \<Rightarrow> response \<times> call list" where
  "respond env rawText calls =
     (let lines = cleanLines rawText;
          c = findCustomer lines;
          i = findInvoice lines;
          d = findDate lines;
          r = findRep lines;
          z = findZip lines;
          hdr = \<lparr>customer = c, rep = r, date = d, invoice = i, zip = z\<rparr>;
          headerIdx = findTableStart lines;
          items = parseLines lines headerIdx;
          files = [(''invoice_header.csv'', headerCsv hdr),
                   (''invoice_lines.csv'', linesCsv (numToString env) items)]
      in case zipGenerate env files of
           Inl msg \<Rightarrow> (errorResponse 500 msg, calls @ [CallZipGenerate files])
         | Inr zipBuf \<Rightarrow>
             (\<lparr>statusCode = 200,
               resp_headers = [(''Content-Type'', ''application/zip''),
                               (''Content-Disposition'', ''attachment; filename='' @ zipName c r i)],
               resp_body = toBase64 env zipBuf,
               isBase64Encoded = True\<rparr>,
              calls @ [CallZipGenerate files]))"

text \<open>\<open>headers["content-type"]?.includes("application/json")\<close>, for the headers object.\<close>

definition isJson :: "(string \<rightharpoonup> string) \<Rightarrow> bool" where
  "isJson hs =
     (case hs ''content-type'' of
        None \<Rightarrow> False
      | Some v \<Rightarrow> includesStr v ''application/json'')"

text \<open>\<open>event.body || "{}"\<close>.\<close>

definition bodyText :: "event \<Rightarrow> string" where
  "bodyText ev = (case ev_body ev of None \<Rightarrow> ''{}'' | Some b \<Rightarrow> if b = [] then ''{}'' else b)"

text \<open>
  The body of the handler: the response and the calls made. An exception thrown anywhere
  is caught and answered with status 500 and its message; reading the content type
  throws when the event has no headers, destructuring the body throws when the body is
  \<open>null\<close>.
\<close>

definition handler :: "env \<Rightarrow> event \<Rightarrow> response \<times> call list" where
  "handler env ev =
     (case ev_headers ev of
        None \<Rightarrow> (errorResponse 500 (undefinedHeadersMessage env), [])
      | Some hs \<Rightarrow>
          (if \<not> isJson hs then (errorResponse 400 sendJsonMessage, [])
           else
             (let text = bodyText ev
              in case jsonParse env text of
                   Inl msg \<Rightarrow> (errorResponse 500 msg, [CallJsonParse text])
                 | Inr JNull \<Rightarrow>
                     (errorResponse 500 (nullDestructureMessage env), [CallJsonParse text])
                 | Inr body \<Rightarrow>
                     (case base64Prop body of
                        None \<Rightarrow> (errorResponse 400 missingBase64Message, [CallJsonParse text])
                      | Some base64 \<Rightarrow>
                          (if \<not> truthy base64
                           then (errorResponse 400 missingBase64Message, [CallJsonParse text])
                           else
                             (case bufferFrom env base64 of
                                Inl msg \<Rightarrow>
                                  (errorResponse 500 msg,
                                   [CallJsonParse text, CallBufferFrom base64])
                              | Inr pdfBuf \<Rightarrow>
                                  (case pdfParse env pdfBuf of
                                     Inl msg \<Rightarrow>
                                       (errorResponse 500 msg,
                                        [CallJsonParse text, CallBufferFrom base64,
                                         CallPdfParse pdfBuf])
                                   | Inr dataText \<Rightarrow>
                                       respond env (orEmpty dataText)
                                         [CallJsonParse text, CallBufferFrom base64,
                                          CallPdfParse pdfBuf])))))))"

section \<open>Loading the module\<close>

text \<open>
  The names that the block of the handler's \<open>try\<close> statement declares with \<open>const\<close>, in
  the order of the source. \<open>zip\<close> is declared twice: for the ZIP code and for the
  archive.
\<close>

definition handlerDeclarations :: "string list" where
  "handlerDeclarations =
     [''isJson'', ''body'', ''filename'', ''base64'', ''mimeType'', ''pdfBuf'', ''data'',
      ''rawText'', ''lines'', ''customer'', ''invoice'', ''date'', ''rep'', ''zip'', ''header'',
      ''headerIdx'', ''items'', ''headerCsvRows'', ''headerCsv'', ''linesCsvRows'', ''linesCsv'',
      ''zip'', ''zipBuf'', ''safe'', ''parts'', ''zipName'']"

text \<open>
  A block that declares a name twice is an early error: the module is rejected when it
  is loaded, whatever the request.
\<close>

definition moduleLoads :: bool where
  "moduleLoads = distinct handlerDeclarations"

text \<open>
  What a request gets from the function as deployed: the answer of the handler when the
  module loads, a failure of the platform otherwise. The definitions above are the
  functions of the module as they run once it loads (the other copy of the file calls the
  archive \<open>archive\<close>).
\<close>

datatype outcome = ModuleLoadError | Answered response "call list"

definition invoke :: "env \<Rightarrow> event \<Rightarrow> outcome" where
  "invoke env ev =
     (if moduleLoads then (case handler env ev of (r, calls) \<Rightarrow> Answered r calls)
      else ModuleLoadError)"

section \<open>Notions used in the statements\<close>

text \<open>Whether every match of a pattern sets the group \<open>i\<close>, read off the pattern.\<close>

primrec setsGroup :: "nat \<Rightarrow> rx \<Rightarrow> bool" where
  "setsGroup i (RChar a) = False"
| "setsGroup i RAny = False"
| "setsGroup i (RSet as) = False"
| "setsGroup i (RNotSet as) = False"
| "setsGroup i RDigit = False"
| "setsGroup i RSpace = False"
| "setsGroup i (RSeq r1 r2) = (setsGroup i r1 \<or> setsGroup i r2)"
| "setsGroup i (RAlt r1 r2) = (setsGroup i r1 \<and> setsGroup i r2)"
| "setsGroup i (RRep mn mx r) = False"
| "setsGroup i (RGroup j r) = (i = j \<or> setsGroup i r)"
| "setsGroup i RBol = False"
| "setsGroup i REol = False"
| "setsGroup i RWordB = False"
| "setsGroup i REmpty = False"

definition hasGroup :: "nat \<Rightarrow> mstate \<Rightarrow> bool" where
  "hasGroup i st = (map_of (snd (snd st)) i \<noteq> None)"

text \<open>
  What may happen to an item after it was appended: its description may get longer, the
  other fields stay as they are.
\<close>

definition grows :: "item \<Rightarrow> item \<Rightarrow> bool" where
  "grows a b =
     (activity b = activity a \<and> qty b = qty a \<and> rate b = rate a \<and> amount b = amount a
      \<and> take (length (description a)) (description b) = description a)"

text \<open>
  How the item list may change while more lines are read: no item is removed or moved,
  the items before the last one of \<open>old\<close> are unchanged, the last one of \<open>old\<close> may have
  grown, and new items come after it.
\<close>

definition extendsItems :: "item list \<Rightarrow> item list \<Rightarrow> bool" where
  "extendsItems old new =
     (length old \<le> length new
      \<and> take (length old - 1) new = butlast old
      \<and> (old = [] \<or> grows (last old) (new ! (length old - 1))))"

text \<open>
  The stop condition read literally from the words of the specification: the keyword
  list without a word boundary after it, and \<open>INVOICE\<close> and \<open>Page\<close> case-sensitive.
\<close>

definition specStopRow :: "string \<Rightarrow> bool" where
  "specStopRow line =
     (testRe True (rseq [RBol,
                         RGroup 1 (ralt [rstr ''Subtotal'', rstr ''Sub-Total'', rstr ''Tax'',
                                         rstr ''Sales Tax'', rstr ''Total'', rstr ''Balance Due''])])
             line
      \<or> testRe False (rseq [RBol, rstr ''INVOICE'', RWordB]) line
      \<or> testRe False (rseq [RBol, rstr ''Page '', rplus RDigit]) line)"

text \<open>
  Reading a CSV text back, splitting at commas and line feeds outside quotes. The result
  is the list of rows; the functions build it from the right: the first field of the first
  row of the result is the field being read.
\<close>

definition consChar :: "char \<Rightarrow> string list list \<Rightarrow> string list list" where
  "consChar c rows = (case rows of (f # fs) # rs \<Rightarrow> ((c # f) # fs) # rs | _ \<Rightarrow> rows)"

definition newField :: "string list list \<Rightarrow> string list list" where
  "newField rows = (case rows of r # rs \<Rightarrow> ([] # r) # rs | [] \<Rightarrow> rows)"

definition newRow :: "string list list \<Rightarrow> string list list" where
  "newRow rows = [[]] # rows"

fun csvBegin :: "string \<Rightarrow> string list list option"
  and csvPlain :: "string \<Rightarrow> string list list option"
  and csvQuoted :: "string \<Rightarrow> string list list option"
  and csvAfterQuote :: "string \<Rightarrow> string list list option" where
  "csvBegin [] = Some [[[]]]"
| "csvBegin (c # cs) =
     (if c = dquote then csvQuoted cs
      else if c = CHR '','' then map_option newField (csvBegin cs)
      else if c = CHR 0x0A then map_option newRow (csvBegin cs)
      else map_option (consChar c) (csvPlain cs))"
| "csvPlain [] = Some [[[]]]"
| "csvPlain (c # cs) =
     (if c = CHR '','' then map_option newField (csvBegin cs)
      else if c = CHR 0x0A then map_option newRow (csvBegin cs)
      else map_option (consChar c) (csvPlain cs))"
| "csvQuoted [] = None"
| "csvQuoted (c # cs) =
     (if c = dquote then csvAfterQuote cs else map_option (consChar c) (csvQuoted cs))"
| "csvAfterQuote [] = Some [[[]]]"
| "csvAfterQuote (c # cs) =
     (if c = dquote then map_option (consChar dquote) (csvQuoted cs)
      else if c = CHR '','' then map_option newField (csvBegin cs)
      else if c = CHR 0x0A then map_option newRow (csvBegin cs)
      else None)"

definition csvDecode :: "string \<Rightarrow> string list list option" where
  "csvDecode s = csvBegin s"

text \<open>Reading a cell back as an optional value: the empty cell is the absent value.\<close>

definition readCell :: "string \<Rightarrow> string option" where
  "readCell s = (if s = [] then None else Some s)"

text \<open>The fields that the encoder wraps in quotes.\<close>

definition needsQuotes :: "string \<Rightarrow> bool" where
  "needsQuotes s = (\<exists>c\<in>set s. c \<in> {CHR '','', CHR 0x0D, CHR 0x0A, dquote})"

definition atSeparator :: "string \<Rightarrow> bool" where
  "atSeparator rest = (case rest of [] \<Rightarrow> True | c # _ \<Rightarrow> c = CHR '','' \<or> c = CHR 0x0A)"

text \<open>The test of the first pass of \<open>findZip\<close> on a line.\<close>

definition hasStateAndZip :: "string \<Rightarrow> bool" where
  "hasStateAndZip l = (testRe False STATE_RE l \<and> testRe False zipRe l)"

text \<open>
  The fallback as the claim words it: the last 50 lines, scanned in reverse order.
\<close>

definition specZipFallback :: "string list \<Rightarrow> string option" where
  "specZipFallback lines = zipSecondPass (rev (drop (length lines - 50) lines))"

text \<open>
  Collaborators for the examples: \<open>JSON.parse\<close> on the texts \<open>null\<close>, \<open>{}\<close>,
  \<open>5\<close> and \<open>[]\<close>, a PDF reader that rejects everything.
\<close>

definition testEnv :: env where
  "testEnv =
     \<lparr>jsonParse = (\<lambda>s. if s = ''null'' then Inr JNull
                        else if s = ''{}'' then Inr (JObject [])
                        else if s = ''5'' then Inr (JNumber (Num 5))
                        else if s = ''[]'' then Inr (JArray [])
                        else Inl ''Unexpected token''),
      undefinedHeadersMessage = ''Cannot read properties of undefined'',
      nullDestructureMessage = ''Cannot destructure property of null'',
      bufferFrom = (\<lambda>v. Inl ''not a string''),
      pdfParse = (\<lambda>b. Inl ''Invalid PDF structure''),
      zipGenerate = (\<lambda>fs. Inr []),
      toBase64 = (\<lambda>b. []),
      numToString = (\<lambda>n. [])\<rparr>"

text \<open>Requests for the examples, tagged as JSON, with a body.\<close>

definition jsonRequest :: "string \<Rightarrow> event" where
  "jsonRequest b = \<lparr>ev_headers = Some [''content-type'' \<mapsto> ''application/json''],
                    ev_body = Some b\<rparr>"

text \<open>The canonical form of a date: \<open>MM/DD/YYYY\<close>, all digits.\<close>

definition isCanonicalDate :: "string \<Rightarrow> bool" where
  "isCanonicalDate s =
     (length s = 10 \<and> list_all isDigit (take 2 s) \<and> s ! 2 = CHR ''/''
      \<and> list_all isDigit (take 2 (drop 3 s)) \<and> s ! 5 = CHR ''/''
      \<and> list_all isDigit (drop 6 s))"

section \<open>Groups that take part in every match\<close>

lemma eatChar_hasGroup:
  "st' \<in> set (eatChar P st) \<Longrightarrow> hasGroup i st \<Longrightarrow> hasGroup i st'"
  by (cases st) (auto simp: eatChar_def hasGroup_def split: list.splits if_splits)

lemma iter_hasGroup:
  assumes f: "\<And>a b. b \<in> set (f a) \<Longrightarrow> hasGroup i a \<Longrightarrow> hasGroup i b"
  shows "st' \<in> set (iter f mn mx st) \<Longrightarrow> hasGroup i st \<Longrightarrow> hasGroup i st'"
proof (induction "length (remaining st)" arbitrary: st mn mx st' rule: less_induct)
  case less
  from less.prems(1)
  have "st' = st \<or> (\<exists>y\<in>set (f st). length (remaining y) < length (remaining st)
          \<and> st' \<in> set (iter f (mn - 1) (map_option (\<lambda>n. n - 1) mx) y))"
    by (subst (asm) iter.simps) (auto split: if_splits)
  then show ?case
  proof
    assume "st' = st"
    with less.prems(2) show ?thesis by simp
  next
    assume "\<exists>y\<in>set (f st). length (remaining y) < length (remaining st)
          \<and> st' \<in> set (iter f (mn - 1) (map_option (\<lambda>n. n - 1) mx) y)"
    then obtain y where y: "y \<in> set (f st)" "length (remaining y) < length (remaining st)"
      "st' \<in> set (iter f (mn - 1) (map_option (\<lambda>n. n - 1) mx) y)"
      by blast
    from f[OF y(1) less.prems(2)] have "hasGroup i y" .
    from less.hyps[OF y(2) y(3) this] show ?thesis .
  qed
qed

lemma matches_hasGroup:
  "st' \<in> set (matches ci r st) \<Longrightarrow> hasGroup i st \<or> setsGroup i r \<Longrightarrow> hasGroup i st'"
proof (induction r arbitrary: st st')
  case (RSeq r1 r2)
  from RSeq.prems(1) obtain y where y: "y \<in> set (matches ci r1 st)" "st' \<in> set (matches ci r2 y)"
    by auto
  show ?case
  proof (cases "hasGroup i st \<or> setsGroup i r1")
    case True
    from RSeq.IH(1)[OF y(1) True] have "hasGroup i y" .
    with RSeq.IH(2)[OF y(2)] show ?thesis by simp
  next
    case False
    with RSeq.prems(2) have "setsGroup i r2" by simp
    with RSeq.IH(2)[OF y(2)] show ?thesis by simp
  qed
next
  case (RAlt r1 r2)
  from RAlt.prems(1) have "st' \<in> set (matches ci r1 st) \<or> st' \<in> set (matches ci r2 st)"
    by simp
  then show ?case
  proof
    assume a: "st' \<in> set (matches ci r1 st)"
    from RAlt.prems(2) have "hasGroup i st \<or> setsGroup i r1" by auto
    from RAlt.IH(1)[OF a this] show ?thesis .
  next
    assume a: "st' \<in> set (matches ci r2 st)"
    from RAlt.prems(2) have "hasGroup i st \<or> setsGroup i r2" by auto
    from RAlt.IH(2)[OF a this] show ?thesis .
  qed
next
  case (RRep mn mx r)
  from RRep.prems(2) have h: "hasGroup i st" by simp
  have "\<And>a b. b \<in> set (matches ci r a) \<Longrightarrow> hasGroup i a \<Longrightarrow> hasGroup i b"
    using RRep.IH by blast
  from iter_hasGroup[of "matches ci r" i, OF this _ h] RRep.prems(1) show ?case by simp
next
  case (RGroup j r)
  from RGroup.prems(1) obtain y where y: "y \<in> set (matches ci r st)" "st' = setCapture j st y"
    by auto
  show ?case
  proof (cases "i = j")
    case True
    with y(2) show ?thesis by (cases y) (simp add: setCapture_def hasGroup_def)
  next
    case False
    with RGroup.prems(2) have "hasGroup i st \<or> setsGroup i r" by simp
    from RGroup.IH[OF y(1) this] y(2) show ?thesis
      by (cases y) (auto simp: setCapture_def hasGroup_def)
  qed
qed (auto dest: eatChar_hasGroup split: if_splits)

lemma searchFrom_group:
  "searchFrom ci r prev s = Some m \<Longrightarrow> setsGroup i r \<Longrightarrow> grp m i \<noteq> None"
proof (induction s arbitrary: prev)
  case Nil
  then obtain st rest where "matches ci r (prev, [], []) = st # rest"
    "m = \<lparr>whole = take (length ([]::string) - length (remaining st)) [], captures = snd (snd st)\<rparr>"
    by (auto split: list.splits)
  with matches_hasGroup[of st ci r "(prev, [], [])" i] Nil.prems(2) show ?case
    by (simp add: hasGroup_def grp_def)
next
  case (Cons c cs)
  show ?case
  proof (cases "matches ci r (prev, c # cs, [])")
    case Nil
    with Cons.prems(1) have "searchFrom ci r (Some c) cs = Some m" by simp
    from Cons.IH[OF this Cons.prems(2)] show ?thesis .
  next
    case (Cons st rest)
    with Cons.prems(1) have "captures m = snd (snd st)" by auto
    with matches_hasGroup[of st ci r "(prev, c # cs, [])" i] Cons Cons.prems(2) show ?thesis
      by (simp add: hasGroup_def grp_def)
  qed
qed

text \<open>
  A group that a pattern sets on every path is defined in every match: \<open>m[i]\<close> is a
  string there, never \<open>undefined\<close>.
\<close>

lemma matchRe_group: "matchRe ci r s = Some m \<Longrightarrow> setsGroup i r \<Longrightarrow> grp m i \<noteq> None"
  unfolding matchRe_def by (rule searchFrom_group)

text \<open>This holds for every group the program reads.\<close>

lemma groups_of_patterns:
  "setsGroup 1 tailRe \<and> setsGroup 2 tailRe \<and> setsGroup 3 tailRe
   \<and> setsGroup 1 leftRe \<and> setsGroup 2 leftRe
   \<and> setsGroup 1 datePattern \<and> setsGroup 2 datePattern \<and> setsGroup 3 datePattern
   \<and> setsGroup 1 labeledDateRe \<and> setsGroup 1 (RGroup 1 bareDate)
   \<and> list_all (setsGroup 1) custMarkers
   \<and> setsGroup 1 invoiceRe \<and> setsGroup 1 invoiceWordRe \<and> setsGroup 1 repRe
   \<and> setsGroup 1 zipRe"
  by code_simp

section \<open>Reading numbers\<close>

text \<open>
  \<open>Number\<close> on some texts: values that binary64 holds exactly, values that are rounded
  (to nearest, a tie to the even significand), the step to infinity, the smallest
  positive value and the step to zero, the other forms of literal, and texts that are no
  numbers.
\<close>

lemma Number_exact:
  "Number ''2'' = Num 2 \<and> Number ''50.00'' = Num 50 \<and> Number ''100.00'' = Num 100
   \<and> Number '' 12 '' = Num 12 \<and> Number '''' = Num 0 \<and> Number ''.5'' = Num (1 / 2)
   \<and> Number ''5.'' = Num 5 \<and> Number ''1e3'' = Num 1000 \<and> Number ''-0'' = NegZero"
  by code_simp

lemma Number_rounded:
  "Number ''0.1'' = Num (3602879701896397 / 36028797018963968)
   \<and> Number ''1234.56'' = Num (2714826150374277 / 2199023255552)
   \<and> Number ''9007199254740993'' = Num 9007199254740992
   \<and> Number ''9007199254740995'' = Num 9007199254740996
   \<and> Number ''1e23'' = Num 99999999999999991611392"
  by code_simp

lemma Number_range:
  "Number ''1.7976931348623159e308'' = PosInfinity
   \<and> Number ''5e-324'' = Num (1 / 2 ^ 1074)
   \<and> Number ''-1e-400'' = NegZero"
  by code_simp

lemma Number_other_forms:
  "Number ''0x1F'' = Num 31 \<and> Number ''0b101'' = Num 5 \<and> Number ''0o17'' = Num 15
   \<and> Number ''Infinity'' = PosInfinity \<and> Number ''-Infinity'' = NegInfinity
   \<and> Number ''-0x10'' = NaN \<and> Number ''12px'' = NaN \<and> Number ''1e'' = NaN
   \<and> Number ''.'' = NaN \<and> Number ''1,000'' = NaN
   \<and> unmoney (Some ''$1,000'') = Some (Num 1000) \<and> unmoney (Some ''1e3'') = Some (Num 1000)
   \<and> unmoney (Some ''$'') = None \<and> unmoney None = None"
  by code_simp

section \<open>The loop of the row parser\<close>

lemma rowStep_None_iff: "rowStep out raw = None \<longleftrightarrow> shouldStopRow raw"
  by (auto simp: rowStep_def Let_def split: option.splits)

lemma parseLoop_stop: "shouldStopRow s \<Longrightarrow> parseLoop out (xs @ s # ys) = parseLoop out xs"
proof (induction xs arbitrary: out)
  case Nil
  then show ?case by (simp add: rowStep_None_iff[THEN iffD2])
next
  case (Cons x xs)
  then show ?case by (simp split: option.splits)
qed

lemma parseLoop_append:
  "parseLoop out (xs @ ys) =
     (if list_ex shouldStopRow xs then parseLoop out xs else parseLoop (parseLoop out xs) ys)"
proof (induction xs arbitrary: out)
  case Nil
  then show ?case by simp
next
  case (Cons x xs)
  show ?case
  proof (cases "rowStep out x")
    case None
    then have "shouldStopRow x" by (simp add: rowStep_None_iff)
    with None show ?thesis by simp
  next
    case (Some out')
    then have "\<not> shouldStopRow x" using rowStep_None_iff[of out x] by auto
    with Some Cons show ?thesis by simp
  qed
qed

lemma grows_refl: "grows a a"
  by (simp add: grows_def)

lemma grows_trans: "grows a b \<Longrightarrow> grows b c \<Longrightarrow> grows a c"
  unfolding grows_def
  by (metis append_eq_conv_conj append.assoc append_take_drop_id)

lemma extendsItems_refl: "extendsItems xs xs"
  by (cases xs rule: rev_cases) (auto simp: extendsItems_def grows_refl butlast_conv_take)

lemma extendsItems_trans:
  assumes "extendsItems a b" "extendsItems b c"
  shows "extendsItems a c"
proof -
  from assms have len: "length a \<le> length b" "length b \<le> length c"
    and tb: "take (length a - 1) b = butlast a"
    and tc: "take (length b - 1) c = butlast b"
    by (simp_all add: extendsItems_def)
  have "take (length a - 1) c = take (length a - 1) (take (length b - 1) c)"
    using len by (simp add: min_def)
  also have "\<dots> = take (length a - 1) (take (length b - 1) b)"
    by (simp only: tc butlast_conv_take)
  also have "\<dots> = take (length a - 1) b"
    using len by (simp add: min_def)
  finally have t: "take (length a - 1) c = butlast a" using tb by simp
  have g: "grows (last a) (c ! (length a - 1))" if ne: "a \<noteq> []"
  proof -
    from ne assms have ga: "grows (last a) (b ! (length a - 1))"
      by (simp add: extendsItems_def)
    from ne len have bne: "b \<noteq> []" by auto
    with assms have gb: "grows (last b) (c ! (length b - 1))"
      by (simp add: extendsItems_def)
    show ?thesis
    proof (cases "length a = length b")
      case True
      with ga bne have "grows (last a) (last b)" by (simp add: last_conv_nth)
      with gb True show ?thesis by (auto intro: grows_trans)
    next
      case False
      with len ne have lt: "length a - 1 < length b - 1" by (cases a) auto
      have "c ! (length a - 1) = take (length b - 1) c ! (length a - 1)"
        using lt by simp
      also have "\<dots> = take (length b - 1) b ! (length a - 1)"
        by (simp only: tc butlast_conv_take)
      also have "\<dots> = b ! (length a - 1)"
        using lt by simp
      finally show ?thesis using ga by simp
    qed
  qed
  show ?thesis
    using len t g by (auto simp: extendsItems_def)
qed

lemma rowStep_shape:
  assumes "rowStep out raw = Some out'"
  shows "out' = out \<or> (\<exists>it. out' = out @ [it])
         \<or> (out \<noteq> [] \<and> (\<exists>sfx. out' = butlast out @ [(last out)\<lparr>description := description (last out) @ sfx\<rparr>]))"
  using assms
  by (auto simp: rowStep_def Let_def split: option.splits if_splits)


lemma rowStep_extends:
  assumes "rowStep out raw = Some out'"
  shows "extendsItems out out'"
proof -
  from rowStep_shape[OF assms] consider
    (same) "out' = out" | (app) it where "out' = out @ [it]"
    | (upd) sfx where "out \<noteq> []"
        "out' = butlast out @ [(last out)\<lparr>description := description (last out) @ sfx\<rparr>]"
    by blast
  then show ?thesis
  proof cases
    case same
    then show ?thesis by (simp add: extendsItems_refl)
  next
    case app
    then show ?thesis
      by (cases out rule: rev_cases) (auto simp: extendsItems_def grows_refl nth_append)
  next
    case upd
    then show ?thesis
      by (cases out rule: rev_cases) (auto simp: extendsItems_def grows_def nth_append)
  qed
qed

lemma parseLoop_extends: "extendsItems out (parseLoop out ls)"
proof (induction ls arbitrary: out)
  case Nil
  then show ?case by (simp add: extendsItems_refl)
next
  case (Cons l ls)
  show ?case
  proof (cases "rowStep out l")
    case None
    then show ?thesis by (simp add: extendsItems_refl)
  next
    case (Some out')
    with Cons[of out'] rowStep_extends[OF Some] show ?thesis
      by (auto intro: extendsItems_trans)
  qed
qed

lemma parseLoop_no_stop:
  "\<not> list_ex shouldStopRow xs \<Longrightarrow> parseLoop out (xs @ ys) = parseLoop (parseLoop out xs) ys"
  by (simp add: parseLoop_append)

section \<open>Character classes\<close>

lemma testRe_RSet: "testRe False (RSet cs) s = (\<exists>c\<in>set s. c \<in> set cs)"
proof -
  have "(searchFrom False (RSet cs) prev s \<noteq> None) = (\<exists>c\<in>set s. c \<in> set cs)" for prev
    by (induction s arbitrary: prev) (auto simp: eatChar_def)
  then show ?thesis by (simp add: testRe_def matchRe_def)
qed

section \<open>Decoding what the encoder wrote\<close>

lemma escapeCsv_Some:
  "escapeCsv (Some s) =
     (if needsQuotes s
      then [dquote] @ concat (map (\<lambda>c. if c = dquote then [dquote, dquote] else [c]) s) @ [dquote]
      else s)"
  by (simp add: escapeCsv_def testRe_RSet needsQuotes_def)

lemma foldr_consChar:
  "foldr consChar s ((x # r) # rs) = ((s @ x) # r) # rs"
  by (induction s) (simp_all add: consChar_def)

lemma csvAfterQuote_sep: "atSeparator rest \<Longrightarrow> csvAfterQuote rest = csvPlain rest"
  by (cases rest) (auto simp: atSeparator_def dquote_def)

lemma csvBegin_sep: "atSeparator rest \<Longrightarrow> csvBegin rest = csvPlain rest"
  by (cases rest) (auto simp: atSeparator_def dquote_def)

lemma csvPlain_plain:
  "\<forall>c\<in>set s. c \<noteq> CHR '','' \<and> c \<noteq> CHR 0x0A \<Longrightarrow>
   csvPlain (s @ rest) = map_option (foldr consChar s) (csvPlain rest)"
  by (induction s) (simp_all add: option.map_comp option.map_id option.map_ident comp_def)

lemma csvQuoted_body:
  "csvQuoted (concat (map (\<lambda>c. if c = dquote then [dquote, dquote] else [c]) s) @ dquote # rest)
     = map_option (foldr consChar s) (csvAfterQuote rest)"
  by (induction s) (simp_all add: option.map_comp option.map_id option.map_ident comp_def)

lemma csvBegin_field:
  assumes "atSeparator rest"
  shows "csvBegin (escapeCsv (Some s) @ rest) = map_option (foldr consChar s) (csvPlain rest)"
proof (cases "needsQuotes s")
  case True
  then show ?thesis
    using assms by (simp add: escapeCsv_Some csvQuoted_body csvAfterQuote_sep)
next
  case False
  then have plain: "\<forall>c\<in>set s. c \<noteq> CHR '','' \<and> c \<noteq> CHR 0x0A" and nq: "dquote \<notin> set s"
    by (auto simp: needsQuotes_def)
  show ?thesis
  proof (cases s)
    case Nil
    with assms False show ?thesis
      by (simp add: escapeCsv_Some csvBegin_sep option.map_id)
  next
    case (Cons c cs)
    with plain nq have "csvBegin (s @ rest) = csvPlain (s @ rest)" by auto
    with False plain show ?thesis
      by (simp add: escapeCsv_Some csvPlain_plain)
  qed
qed

lemma csvBegin_row:
  assumes "csvPlain rest = Some ([[]] # R)" and "rest = [] \<or> hd rest = CHR 0x0A"
  shows "csvBegin (join '','' (map (\<lambda>c. escapeCsv (Some c)) (f # fs)) @ rest) = Some ((f # fs) # R)"
proof (induction fs arbitrary: f)
  case Nil
  from assms(2) have "atSeparator rest" by (cases rest) (auto simp: atSeparator_def)
  then show ?case
    using assms(1) by (simp add: csvBegin_field foldr_consChar)
next
  case (Cons g gs)
  have "atSeparator (CHR '','' # join '','' (map (\<lambda>c. escapeCsv (Some c)) (g # gs)) @ rest)"
    by (simp add: atSeparator_def)
  then show ?case
    using Cons[of g] by (simp add: csvBegin_field foldr_consChar newField_def)
qed

lemma csvDecode_csvText:
  assumes "\<forall>r\<in>set (r0 # rs). r \<noteq> []"
  shows "csvDecode (csvText (r0 # rs)) = Some (r0 # rs)"
  using assms
proof (induction rs arbitrary: r0)
  case Nil
  then obtain f fs where "r0 = f # fs" by (cases r0) auto
  then show ?case
    using csvBegin_row[of "[]" "[]" f fs] by (simp add: csvDecode_def csvText_def)
next
  case (Cons r1 rs)
  then obtain f fs where r0: "r0 = f # fs" by (cases r0) auto
  from Cons have ih: "csvBegin (csvText (r1 # rs)) = Some (r1 # rs)"
    by (simp add: csvDecode_def)
  have "csvPlain (CHR 0x0A # csvText (r1 # rs)) = Some ([[]] # r1 # rs)"
    by (simp add: ih newRow_def)
  from csvBegin_row[OF this, of f fs] show ?case
    by (simp add: csvDecode_def csvText_def r0)
qed

section \<open>The end-to-end scenario\<close>






section \<open>Stop rows\<close>

text \<open>
  C2, as stated, at a line that begins with \<open>Tax\<close> but goes on with a word character:
  it matches the pattern of the claim, yet the parser takes it as a row.
\<close>

theorem C2_stop_row_counterexample:
  "specStopRow ''Taxi ride 2 50.00 100.00''
   \<and> parseLines [''ACTIVITY DESCRIPTION QTY RATE AMOUNT'', ''Taxi ride 2 50.00 100.00''] 0
       = [\<lparr>activity = ''Taxi'', description = ''ride'', qty = Some (Num 2),
           rate = Some (Num 50), amount = Some (Num 100)\<rparr>]"
  by code_simp

text \<open>
  C2, amended. When the row parser reaches a line for which \<open>shouldStopRow\<close> holds (one
  of the keywords Subtotal, Sub-Total, Tax, Sales Tax, Total, Balance Due at the start of
  the line and followed by a word boundary, or \<open>INVOICE\<close> followed by a word boundary, or
  \<open>Page\<close>, a space and a digit, all three case-insensitive), row processing ends there:
  the items are those of the lines before it, whatever follows.
\<close>

theorem C2_stop_row:
  assumes "shouldStopRow s" and "h < int (length pre)"
  shows "parseLines (pre @ s # post) h = parseLines pre h"
proof (cases "h < 0")
  case True
  then show ?thesis by (simp add: parseLines_def)
next
  case False
  with assms(2) have "nat (h + 1) \<le> length pre" by simp
  then have "drop (nat (h + 1)) (pre @ s # post) = drop (nat (h + 1)) pre @ s # post"
    by simp
  with False assms(1) show ?thesis
    by (simp add: parseLines_def parseLoop_stop)
qed

theorem C2_stop_row_witness:
  "shouldStopRow ''Subtotal 100.00''
   \<and> parseLines [''ACTIVITY DESCRIPTION QTY RATE AMOUNT'', ''LBR Labor 2 50.00 100.00'',
                  ''Subtotal 100.00'', ''TX Tax 1 8.00 8.00''] 0
       = [\<lparr>activity = ''LBR'', description = ''Labor'', qty = Some (Num 2),
           rate = Some (Num 50), amount = Some (Num 100)\<rparr>]"
proof -
  have s: "shouldStopRow ''Subtotal 100.00''" by code_simp
  have l: "(0::int) < int (length [''ACTIVITY DESCRIPTION QTY RATE AMOUNT'',
                                   ''LBR Labor 2 50.00 100.00''])" by simp
  have p: "parseLines [''ACTIVITY DESCRIPTION QTY RATE AMOUNT'', ''LBR Labor 2 50.00 100.00''] 0
       = [\<lparr>activity = ''LBR'', description = ''Labor'', qty = Some (Num 2),
           rate = Some (Num 50), amount = Some (Num 100)\<rparr>]" by code_simp
  from C2_stop_row[OF s l, of "[''TX Tax 1 8.00 8.00'']"] p s show ?thesis by simp
qed

section \<open>Missing table header\<close>

lemma findTableStartFrom_none:
  "(findTableStartFrom i ls = - 1) = (\<forall>l\<in>set ls. \<not> isTableHeader l)"
  by (induction ls arbitrary: i) auto

lemma linesCsv_empty: "linesCsv str [] = ''Activity,Description,Qty,Rate,Amount''"
  by (simp add: linesCsv_def linesCsvRows_def csvText_def escapeCsv_def testRe_RSet dquote_def)

text \<open>
  C3. When no line passes the test of the table locator (all five keyword classes on one
  line), the locator returns -1, the row parser returns the empty list, and the
  line-items CSV is its header row alone, whatever the rendering of numbers.
\<close>

theorem C3_missing_table_header:
  assumes "\<forall>l\<in>set lines. \<not> isTableHeader l"
  shows "findTableStart lines = - 1
         \<and> parseLines lines (findTableStart lines) = []
         \<and> linesCsv str (parseLines lines (findTableStart lines))
             = ''Activity,Description,Qty,Rate,Amount''"
proof -
  from assms have "findTableStart lines = - 1"
    by (simp add: findTableStart_def findTableStartFrom_none)
  then show ?thesis
    by (simp add: parseLines_def linesCsv_empty)
qed

theorem C3_missing_table_header_witness:
  "\<not> isTableHeader ''INVOICE 1001''
   \<and> \<not> isTableHeader ''ACTIVITY DESCRIPTION QTYS RATES AMOUNTS''
   \<and> findTableStart [''INVOICE 1001'', ''ACTIVITY DESCRIPTION QTYS RATES AMOUNTS'',
                     ''LBR Labor 2 50.00 100.00''] = - 1
   \<and> parseLines [''INVOICE 1001'', ''ACTIVITY DESCRIPTION QTYS RATES AMOUNTS'',
                  ''LBR Labor 2 50.00 100.00'']
        (findTableStart [''INVOICE 1001'', ''ACTIVITY DESCRIPTION QTYS RATES AMOUNTS'',
                         ''LBR Labor 2 50.00 100.00'']) = []
   \<and> linesCsv (\<lambda>n. [])
        (parseLines [''INVOICE 1001'', ''ACTIVITY DESCRIPTION QTYS RATES AMOUNTS'',
                     ''LBR Labor 2 50.00 100.00'']
           (findTableStart [''INVOICE 1001'', ''ACTIVITY DESCRIPTION QTYS RATES AMOUNTS'',
                            ''LBR Labor 2 50.00 100.00'']))
       = ''Activity,Description,Qty,Rate,Amount''"
proof -
  have a: "\<not> isTableHeader ''INVOICE 1001''"
    "\<not> isTableHeader ''ACTIVITY DESCRIPTION QTYS RATES AMOUNTS''"
    "\<not> isTableHeader ''LBR Labor 2 50.00 100.00''"
    by code_simp+
  then have "\<forall>l\<in>set [''INVOICE 1001'', ''ACTIVITY DESCRIPTION QTYS RATES AMOUNTS'',
                        ''LBR Labor 2 50.00 100.00'']. \<not> isTableHeader l"
    by simp
  from C3_missing_table_header[OF this, of "\<lambda>n. []"] a show ?thesis by blast
qed

section \<open>Seeded items\<close>

text \<open>
  C4. Let the parser reach the line \<open>l\<close> with no item yet (the lines between the header
  and \<open>l\<close> hold no stop row and gave no item), and let \<open>l\<close> be a seed: no stop row, not
  blank, without numeric tail, matching the seed pattern. Then, whatever lines follow,
  the first item of the final output is the seeded one, and its qty, rate and amount are
  absent.
\<close>

theorem C4_seed_item_numbers_absent:
  assumes h: "0 \<le> h" "h < int (length pre)"
    and reach: "\<not> list_ex shouldStopRow (drop (nat (h + 1)) pre)"
    and empty: "parseLines pre h = []"
    and line: "\<not> shouldStopRow l" "trim l \<noteq> []" "matchRe False tailRe l = None"
    and seed: "matchRe False leftRe l = Some m"
  shows "parseLines (pre @ l # post) h \<noteq> []
         \<and> activity (hd (parseLines (pre @ l # post) h)) = trim (grpText m 1)
         \<and> qty (hd (parseLines (pre @ l # post) h)) = None
         \<and> rate (hd (parseLines (pre @ l # post) h)) = None
         \<and> amount (hd (parseLines (pre @ l # post) h)) = None"
proof -
  define seedItem where
    "seedItem = \<lparr>activity = trim (grpText m 1), description = trim (grpText m 2),
                 qty = None, rate = None, amount = None\<rparr>"
  define r where "r = parseLoop [seedItem] post"
  from h have d: "drop (nat (h + 1)) (pre @ l # post) = drop (nat (h + 1)) pre @ l # post"
    by simp
  from h empty have e: "parseLoop [] (drop (nat (h + 1)) pre) = []"
    by (simp add: parseLines_def)
  from line seed have step: "rowStep [] l = Some [seedItem]"
    by (simp add: rowStep_def seedItem_def)
  from h have "parseLines (pre @ l # post) h = parseLoop [] (drop (nat (h + 1)) pre @ l # post)"
    by (simp add: parseLines_def d)
  also have "\<dots> = parseLoop [] (l # post)"
    using reach e by (simp add: parseLoop_no_stop)
  also have "\<dots> = r"
    using step by (simp add: r_def)
  finally have eq: "parseLines (pre @ l # post) h = r" .
  have "extendsItems [seedItem] r"
    unfolding r_def by (rule parseLoop_extends)
  then have "r \<noteq> []" and "grows seedItem (hd r)"
    by (cases r; simp add: extendsItems_def)+
  then show ?thesis
    unfolding eq by (simp add: grows_def seedItem_def)
qed


theorem C4_seed_item_numbers_absent_witness:
  "parseLines [''ACTIVITY DESCRIPTION QTY RATE AMOUNT'', ''Widget blue'', ''2 50.00 100.00''] 0
     = [\<lparr>activity = ''Widget'', description = ''blue'', qty = None, rate = None, amount = None\<rparr>,
        \<lparr>activity = [], description = [], qty = Some (Num 2), rate = Some (Num 50),
         amount = Some (Num 100)\<rparr>]
   \<and> qty (hd (parseLines ([''ACTIVITY DESCRIPTION QTY RATE AMOUNT''] @ ''Widget blue''
                            # [''2 50.00 100.00'']) 0)) = None
   \<and> rate (hd (parseLines ([''ACTIVITY DESCRIPTION QTY RATE AMOUNT''] @ ''Widget blue''
                             # [''2 50.00 100.00'']) 0)) = None
   \<and> amount (hd (parseLines ([''ACTIVITY DESCRIPTION QTY RATE AMOUNT''] @ ''Widget blue''
                               # [''2 50.00 100.00'']) 0)) = None"
proof -
  have a: "(0::int) \<le> 0" "(0::int) < int (length [''ACTIVITY DESCRIPTION QTY RATE AMOUNT''])"
    by simp_all
  have b: "\<not> list_ex shouldStopRow (drop (nat (0 + 1)) [''ACTIVITY DESCRIPTION QTY RATE AMOUNT''])"
    by simp
  have c: "parseLines [''ACTIVITY DESCRIPTION QTY RATE AMOUNT''] 0 = []"
    by code_simp
  have d: "\<not> shouldStopRow ''Widget blue''" "trim ''Widget blue'' \<noteq> []"
    "matchRe False tailRe ''Widget blue'' = None"
    by code_simp+
  have e: "matchRe False leftRe ''Widget blue''
             = Some \<lparr>whole = ''Widget blue'', captures = [(2, ''blue''), (1, ''Widget'')]\<rparr>"
    by code_simp
  have f: "parseLines [''ACTIVITY DESCRIPTION QTY RATE AMOUNT'', ''Widget blue'',
                       ''2 50.00 100.00''] 0
     = [\<lparr>activity = ''Widget'', description = ''blue'', qty = None, rate = None, amount = None\<rparr>,
        \<lparr>activity = [], description = [], qty = Some (Num 2), rate = Some (Num 50),
         amount = Some (Num 100)\<rparr>]"
    by code_simp
  from C4_seed_item_numbers_absent[OF a b c d e, of "[''2 50.00 100.00'']"] f
  show ?thesis by simp
qed

section \<open>Date extractor\<close>

lemma sep_not_digit: "s \<in> set ''/-'' \<Longrightarrow> \<not> isDigit s"
  by (auto simp: isDigit_def)

lemma digit_run_1_2:
  assumes "list_all isDigit ds" "length ds = 1 \<or> length ds = 2"
  obtains a where "ds = [a]" "isDigit a" | a b where "ds = [a, b]" "isDigit a" "isDigit b"
proof (cases ds)
  case Nil
  with assms(2) show ?thesis by simp
next
  case c1: (Cons a r1)
  show ?thesis
  proof (cases r1)
    case Nil
    with c1 assms(1) that(1) show ?thesis by simp
  next
    case c2: (Cons b r2)
    with c1 assms(2) have "r2 = []" by simp
    with c1 c2 assms(1) that(2) show ?thesis by simp
  qed
qed

lemma digit_run_2_4:
  assumes "list_all isDigit ds" "2 \<le> length ds" "length ds \<le> 4"
  obtains a b where "ds = [a, b]" "isDigit a" "isDigit b"
  | a b c where "ds = [a, b, c]" "isDigit a" "isDigit b" "isDigit c"
  | a b c d where "ds = [a, b, c, d]" "isDigit a" "isDigit b" "isDigit c" "isDigit d"
proof (cases ds)
  case Nil
  with assms(2) show ?thesis by simp
next
  case c1: (Cons a r1)
  show ?thesis
  proof (cases r1)
    case Nil
    with c1 assms(2) show ?thesis by simp
  next
    case c2: (Cons b r2)
    show ?thesis
    proof (cases r2)
      case Nil
      with c1 c2 assms(1) that(1) show ?thesis by simp
    next
      case c3: (Cons c r3)
      show ?thesis
      proof (cases r3)
        case Nil
        with c1 c2 c3 assms(1) that(2) show ?thesis by simp
      next
        case c4: (Cons d r4)
        with c1 c2 c3 assms(3) have "r4 = []" by simp
        with c1 c2 c3 c4 assms(1) that(3) show ?thesis by simp
      qed
    qed
  qed
qed

lemmas date_engine_simps =
  matchRe_def datePattern_def rseq_def eatChar_def remaining_def setCapture_def iter.simps
  grpText_def grp_def padStart2_def


text \<open>
  What \<open>parseDate\<close> returns on a raw date: month and day padded to two digits, a
  two-digit year pivoted at 70, a year of three or four digits as it is.
\<close>

lemma parseDate_value:
  assumes mm: "list_all isDigit mm" "length mm = 1 \<or> length mm = 2"
    and dd: "list_all isDigit dd" "length dd = 1 \<or> length dd = 2"
    and yy: "list_all isDigit yyyy" "2 \<le> length yyyy" "length yyyy \<le> 4"
    and sep: "s1 \<in> set ''/-''" "s2 \<in> set ''/-''"
  shows "parseDate (Some (mm @ [s1] @ dd @ [s2] @ yyyy))
     = Some (padStart2 mm @ ''/'' @ padStart2 dd @ ''/''
             @ (if length yyyy = 2
                then natToString (if 70 \<le> digitsVal yyyy then 1900 + digitsVal yyyy
                                  else 2000 + digitsVal yyyy)
                else yyyy))"
proof -
  note n1 = sep_not_digit[OF sep(1)] and n2 = sep_not_digit[OF sep(2)]
  from mm show ?thesis
  proof (cases rule: digit_run_1_2)
    case m: 1
    from dd show ?thesis
    proof (cases rule: digit_run_1_2)
      case d: 1
      from yy show ?thesis
        by (cases rule: digit_run_2_4)
          (use m d sep n1 n2 in \<open>simp_all add: parseDate_def date_engine_simps\<close>)
    next
      case d: 2
      from yy show ?thesis
        by (cases rule: digit_run_2_4)
          (use m d sep n1 n2 in \<open>simp_all add: parseDate_def date_engine_simps\<close>)
    qed
  next
    case m: 2
    from dd show ?thesis
    proof (cases rule: digit_run_1_2)
      case d: 1
      from yy show ?thesis
        by (cases rule: digit_run_2_4)
          (use m d sep n1 n2 in \<open>simp_all add: parseDate_def date_engine_simps\<close>)
    next
      case d: 2
      from yy show ?thesis
        by (cases rule: digit_run_2_4)
          (use m d sep n1 n2 in \<open>simp_all add: parseDate_def date_engine_simps\<close>)
    qed
  qed
qed


lemma isDigit_digitChar: "isDigit (digitChar k)"
proof -
  have "k mod 10 < length ''0123456789''" by simp
  then have "''0123456789'' ! (k mod 10) \<in> set ''0123456789''" by (rule nth_mem)
  then show ?thesis by (simp only: isDigit_def digitChar_def)
qed

lemma natToString_four_digits:
  assumes "1000 \<le> n" "n < 10000"
  shows "natToString n
     = [digitChar (n div 1000), digitChar (n div 100), digitChar (n div 10), digitChar n]"
proof -
  from assms have h: "\<not> n < 10" "\<not> n div 10 < 10" "\<not> n div 100 < 10" "n div 1000 < 10"
    by auto
  have e: "n div 10 div 10 = n div 100" "n div 100 div 10 = n div 1000"
    by (simp_all add: div_mult2_eq[symmetric])
  have a: "natToString n = natToString (n div 10) @ [digitChar n]"
    using h(1) by (simp add: natToString.simps[of n])
  have b: "natToString (n div 10) = natToString (n div 100) @ [digitChar (n div 10)]"
    using h(2) e(1) by (simp add: natToString.simps[of "n div 10"])
  have c: "natToString (n div 100) = natToString (n div 1000) @ [digitChar (n div 100)]"
    using h(3) e(2) by (simp add: natToString.simps[of "n div 100"])
  have d: "natToString (n div 1000) = [digitChar (n div 1000)]"
    using h(4) by (simp add: natToString.simps[of "n div 1000"])
  show ?thesis by (simp add: a b c d)
qed

lemma digitVal_less: "isDigit c \<Longrightarrow> digitVal c < 10"
  by (auto simp: isDigit_def digitVal_def)

lemma canonical_from_parts:
  assumes "length p = 2" "list_all isDigit p" "length q = 2" "list_all isDigit q"
    "length y = 4" "list_all isDigit y"
  shows "isCanonicalDate (p @ ''/'' @ q @ ''/'' @ y)"
proof -
  from assms(1) obtain p1 p2 where p: "p = [p1, p2]"
    by (metis (no_types) One_nat_def Suc_1 length_0_conv length_Suc_conv)
  from assms(3) obtain q1 q2 where q: "q = [q1, q2]"
    by (metis (no_types) One_nat_def Suc_1 length_0_conv length_Suc_conv)
  show ?thesis
    using assms by (simp add: isCanonicalDate_def p q)
qed

lemma padStart2_digits:
  assumes "list_all isDigit ds" "length ds = 1 \<or> length ds = 2"
  shows "length (padStart2 ds) = 2 \<and> list_all isDigit (padStart2 ds)"
  using assms by (cases rule: digit_run_1_2) (auto simp: padStart2_def isDigit_def)

text \<open>With a year of two or four digits the result is canonical; with three it is not.\<close>

lemma parseDate_canonical:
  assumes mm: "list_all isDigit mm" "length mm = 1 \<or> length mm = 2"
    and dd: "list_all isDigit dd" "length dd = 1 \<or> length dd = 2"
    and yy: "list_all isDigit yyyy" "length yyyy = 2 \<or> length yyyy = 4"
    and sep: "s1 \<in> set ''/-''" "s2 \<in> set ''/-''"
  shows "\<exists>d. parseDate (Some (mm @ [s1] @ dd @ [s2] @ yyyy)) = Some d \<and> isCanonicalDate d"
proof -
  define y where "y = (if length yyyy = 2
                then natToString (if 70 \<le> digitsVal yyyy then 1900 + digitsVal yyyy
                                  else 2000 + digitsVal yyyy)
                else yyyy)"
  from yy(2) have "2 \<le> length yyyy" "length yyyy \<le> 4" by auto
  from parseDate_value[OF mm dd yy(1) this sep]
  have v: "parseDate (Some (mm @ [s1] @ dd @ [s2] @ yyyy))
             = Some (padStart2 mm @ ''/'' @ padStart2 dd @ ''/'' @ y)"
    by (simp add: y_def)
  have "length y = 4 \<and> list_all isDigit y"
  proof (cases "length yyyy = 2")
    case True
    then obtain a b where ab: "yyyy = [a, b]"
      by (metis (no_types) One_nat_def Suc_1 length_0_conv length_Suc_conv)
    with yy(1) have "digitVal a < 10" "digitVal b < 10" by (simp_all add: digitVal_less)
    then have "digitsVal yyyy < 100" by (simp add: ab digitsVal_def)
    then have "1000 \<le> (if 70 \<le> digitsVal yyyy then 1900 + digitsVal yyyy else 2000 + digitsVal yyyy)"
      and "(if 70 \<le> digitsVal yyyy then 1900 + digitsVal yyyy else 2000 + digitsVal yyyy) < 10000"
      by auto
    from natToString_four_digits[OF this] True show ?thesis
      by (simp add: y_def isDigit_digitChar)
  next
    case False
    with yy show ?thesis by (simp add: y_def)
  qed
  with padStart2_digits[OF mm] padStart2_digits[OF dd]
  have "isCanonicalDate (padStart2 mm @ ''/'' @ padStart2 dd @ ''/'' @ y)"
    by (intro canonical_from_parts) simp_all
  with v show ?thesis by simp
qed

lemma parseDate_three_digit_year:
  assumes mm: "list_all isDigit mm" "length mm = 1 \<or> length mm = 2"
    and dd: "list_all isDigit dd" "length dd = 1 \<or> length dd = 2"
    and yy: "list_all isDigit yyyy" "length yyyy = 3"
    and sep: "s1 \<in> set ''/-''" "s2 \<in> set ''/-''"
  shows "\<exists>d. parseDate (Some (mm @ [s1] @ dd @ [s2] @ yyyy)) = Some d \<and> \<not> isCanonicalDate d"
proof -
  from yy(2) have "2 \<le> length yyyy" "length yyyy \<le> 4" by auto
  from parseDate_value[OF mm dd yy(1) this sep] yy(2)
  have "parseDate (Some (mm @ [s1] @ dd @ [s2] @ yyyy))
             = Some (padStart2 mm @ ''/'' @ padStart2 dd @ ''/'' @ yyyy)"
    by simp
  moreover have "length (padStart2 mm @ ''/'' @ padStart2 dd @ ''/'' @ yyyy) = 9"
    using padStart2_digits[OF mm] padStart2_digits[OF dd] yy(2) by simp
  ultimately show ?thesis by (simp add: isCanonicalDate_def)
qed

text \<open>
  C5. The two examples of the claim give \<open>03/04/2023\<close> and \<open>01/01/1999\<close>, and
  every raw date with a year of two or four digits gives a canonical date
  (\<open>parseDate_canonical\<close>). A raw date with a three-digit year is matched as well (the
  pattern takes two to four digits); its year is neither pivoted nor padded, and the
  output is not of the form MM/DD/YYYY (\<open>parseDate_three_digit_year\<close>).
\<close>

theorem C5_date_extractor:
  "findDate [''Invoice Date: 3/4/23''] = Some ''03/04/2023''
   \<and> findDate [''Date - 1/1/99''] = Some ''01/01/1999''
   \<and> findDate [''Invoice 1001'', ''Shipped 11/12/05''] = Some ''11/12/2005''
   \<and> findDate [''Date: 1/2/345''] = Some ''01/02/345''
   \<and> parseDate (Some ''1/2/345'') = Some ''01/02/345''
   \<and> \<not> isCanonicalDate ''01/02/345''"
  by code_simp

section \<open>Round trip of the header record\<close>

text \<open>
  C6. For every header record, reading the header CSV back (splitting at commas and line
  feeds outside quotes, a doubled quote inside quotes being one quote) gives the row of
  column names and the five field values of the record, an absent value being the empty
  field; when no field of the record is the empty string, reading the empty cell as
  absent gives back the five optional values themselves. The
  encoder wraps a field in double quotes, doubling the quotes inside, exactly when it
  holds a comma, a carriage return, a line feed or a double quote, and emits every other
  field as it is.
\<close>

theorem C6_header_csv_round_trip:
  "csvDecode (headerCsv h)
     = Some [[''Customer'', ''Rep'', ''Date'', ''Invoice'', ''Zip''],
             [orEmpty (customer h), orEmpty (rep h), orEmpty (date h), orEmpty (invoice h),
              orEmpty (zip h)]]
   \<and> (Some [] \<notin> {customer h, rep h, date h, invoice h, zip h} \<longrightarrow>
        map readCell [orEmpty (customer h), orEmpty (rep h), orEmpty (date h),
                      orEmpty (invoice h), orEmpty (zip h)]
          = [customer h, rep h, date h, invoice h, zip h])
   \<and> (\<forall>s. escapeCsv (Some s) =
          (if needsQuotes s
           then [dquote] @ concat (map (\<lambda>c. if c = dquote then [dquote, dquote] else [c]) s)
                @ [dquote]
           else s))"
proof (intro conjI)
  have "\<forall>r\<in>set (headerCsvRows h). r \<noteq> []"
    by (simp add: headerCsvRows_def headerCells_def)
  then show "csvDecode (headerCsv h)
     = Some [[''Customer'', ''Rep'', ''Date'', ''Invoice'', ''Zip''],
             [orEmpty (customer h), orEmpty (rep h), orEmpty (date h), orEmpty (invoice h),
              orEmpty (zip h)]]"
    unfolding headerCsv_def headerCsvRows_def headerCells_def
    by (rule csvDecode_csvText)
next
  show "Some [] \<notin> {customer h, rep h, date h, invoice h, zip h} \<longrightarrow>
        map readCell [orEmpty (customer h), orEmpty (rep h), orEmpty (date h),
                      orEmpty (invoice h), orEmpty (zip h)]
          = [customer h, rep h, date h, invoice h, zip h]"
    by (auto simp: readCell_def orEmpty_def split: option.splits)
next
  show "\<forall>s. escapeCsv (Some s) =
          (if needsQuotes s
           then [dquote] @ concat (map (\<lambda>c. if c = dquote then [dquote, dquote] else [c]) s)
                @ [dquote]
           else s)"
    by (simp add: escapeCsv_Some)
qed

text \<open>The customer \<open>Acme, Inc.\<close> is written in quotes and read back as it was.\<close>

theorem C6_header_csv_round_trip_witness:
  "headerCsv \<lparr>customer = Some ''Acme, Inc.'', rep = None, date = Some ''03/04/2023'',
               invoice = Some ''A-1001'', zip = None\<rparr>
     = ''Customer,Rep,Date,Invoice,Zip'' @ [CHR 0x0A] @ [dquote] @ ''Acme, Inc.'' @ [dquote]
       @ '',,03/04/2023,A-1001,''
   \<and> csvDecode (headerCsv \<lparr>customer = Some ''Acme, Inc.'', rep = None,
                             date = Some ''03/04/2023'', invoice = Some ''A-1001'',
                             zip = None\<rparr>)
     = Some [[''Customer'', ''Rep'', ''Date'', ''Invoice'', ''Zip''],
             [''Acme, Inc.'', [], ''03/04/2023'', ''A-1001'', []]]
   \<and> map readCell [''Acme, Inc.'', [], ''03/04/2023'', ''A-1001'', []]
     = [Some ''Acme, Inc.'', None, Some ''03/04/2023'', Some ''A-1001'', None]"
proof -
  have a: "headerCsv \<lparr>customer = Some ''Acme, Inc.'', rep = None, date = Some ''03/04/2023'',
               invoice = Some ''A-1001'', zip = None\<rparr>
     = ''Customer,Rep,Date,Invoice,Zip'' @ [CHR 0x0A] @ [dquote] @ ''Acme, Inc.'' @ [dquote]
       @ '',,03/04/2023,A-1001,''"
    by code_simp
  from C6_header_csv_round_trip[of "\<lparr>customer = Some ''Acme, Inc.'', rep = None,
      date = Some ''03/04/2023'', invoice = Some ''A-1001'', zip = None\<rparr>"]
  have "csvDecode (headerCsv \<lparr>customer = Some ''Acme, Inc.'', rep = None,
                             date = Some ''03/04/2023'', invoice = Some ''A-1001'',
                             zip = None\<rparr>)
     = Some [[''Customer'', ''Rep'', ''Date'', ''Invoice'', ''Zip''],
             [''Acme, Inc.'', [], ''03/04/2023'', ''A-1001'', []]]"
    by (simp add: orEmpty_def)
  moreover
  from C6_header_csv_round_trip[of "\<lparr>customer = Some ''Acme, Inc.'', rep = None,
      date = Some ''03/04/2023'', invoice = Some ''A-1001'', zip = None\<rparr>"]
  have "map readCell [''Acme, Inc.'', [], ''03/04/2023'', ''A-1001'', []]
     = [Some ''Acme, Inc.'', None, Some ''03/04/2023'', Some ''A-1001'', None]"
    by (simp add: orEmpty_def)
  ultimately show ?thesis using a by blast
qed

section \<open>The window of the customer extractor\<close>

text \<open>When the first pass finds a customer, it is the result: the window is respected.\<close>

lemma findCustomer_first_pass:
  "custFirstPass (take 40 lines) = Some c \<Longrightarrow> findCustomer lines = Some c"
  by (simp add: findCustomer_def)

text \<open>
  C7. Two line sequences that agree on their first 40 lines, with different customers: the
  first pass reads \<open>lines.slice(0, 40)\<close>, but the fallback pass looks for the marker
  line with \<open>findIndex\<close> over all the lines, so a \<open>Bill To\<close> block that starts at line
  41 is found.
\<close>

theorem C7_customer_window:
  "take 40 (replicate 40 ''x'' @ [''Bill To'', ''Acme Corp'']) = take 40 (replicate 40 ''x'')
   \<and> findCustomer (replicate 40 ''x'' @ [''Bill To'', ''Acme Corp'']) = Some ''Acme Corp''
   \<and> findCustomer (replicate 40 ''x'') = None"
  by code_simp

section \<open>ZIP extractor\<close>

lemma zipOf_None_iff: "(zipOf l = None) = (\<not> testRe False zipRe l)"
  by (simp add: zipOf_def testRe_def split: option.splits)

lemma zipFirstPass_none:
  "\<forall>l\<in>set ls. \<not> hasStateAndZip l \<Longrightarrow> zipFirstPass ls = None"
  by (induction ls) (auto simp: hasStateAndZip_def)

lemma zipFirstPass_first:
  assumes "\<forall>x\<in>set pre. \<not> hasStateAndZip x" "hasStateAndZip l" "zipOf l = Some z"
  shows "zipFirstPass (pre @ l # post) = Some z"
  using assms by (induction pre) (auto simp: hasStateAndZip_def)

lemma zipSecondPass_skip:
  "\<forall>x\<in>set xs. zipOf x = None \<Longrightarrow> zipSecondPass (xs @ ys) = zipSecondPass ys"
  by (induction xs) auto

lemma zipSecondPass_none: "\<forall>x\<in>set xs. zipOf x = None \<Longrightarrow> zipSecondPass xs = None"
  by (induction xs) auto

text \<open>
  C8, as stated, on 51 lines with a ZIP in the first and in the last line and no state:
  the last 50 lines in reverse order give \<open>22222\<close>, the extractor returns \<open>11111\<close>;
  and with the only ZIP in line 51 the extractor finds nothing.
\<close>

theorem C8_zip_extractor_counterexample:
  "zipFirstPass (take 50 (''11111'' # replicate 49 ''x'' @ [''22222''])) = None
   \<and> specZipFallback (''11111'' # replicate 49 ''x'' @ [''22222'']) = Some ''22222''
   \<and> findZip (''11111'' # replicate 49 ''x'' @ [''22222'']) = Some ''11111''
   \<and> findZip (replicate 50 ''x'' @ [''22222'']) = None
   \<and> specZipFallback (replicate 50 ''x'' @ [''22222'']) = Some ''22222''"
  by code_simp


text \<open>
  C8, amended. Let \<open>n\<close> be the number of lines scanned, at most 50 from the top. When a
  line among them holds a state abbreviation as a whole word and a ZIP pattern (5 digits,
  optionally +4), the ZIP of the first such line is returned. When none does, the
  extractor falls back to these same first 50 lines in reverse order and returns the ZIP
  pattern of the last of them that has one; with no ZIP pattern among them it returns
  nothing.
\<close>

theorem C8_zip_extractor:
  assumes n: "n = min 50 (length lines)"
  shows "(\<forall>i z. i < n \<and> hasStateAndZip (lines ! i) \<and> zipOf (lines ! i) = Some z
              \<and> (\<forall>j<i. \<not> hasStateAndZip (lines ! j))
            \<longrightarrow> findZip lines = Some z)
       \<and> (\<forall>i z. (\<forall>k<n. \<not> hasStateAndZip (lines ! k))
              \<and> i < n \<and> zipOf (lines ! i) = Some z
              \<and> (\<forall>j. i < j \<and> j < n \<longrightarrow> zipOf (lines ! j) = None)
            \<longrightarrow> findZip lines = Some z)
       \<and> ((\<forall>k<n. zipOf (lines ! k) = None) \<longrightarrow> findZip lines = None)"
proof -
  let ?w = "take 50 lines"
  have len: "length ?w = n" using n by simp
  have nth: "?w ! i = lines ! i" if "i < n" for i using that n by simp
  have split: "?w = take i ?w @ lines ! i # drop (Suc i) ?w" if "i < n" for i
    using that len nth id_take_nth_drop[of i ?w] by simp
  have before: "\<forall>x\<in>set (take i ?w). P x" if "\<forall>j<i. P (lines ! j)" "i < n" for i P
  proof
    fix x assume "x \<in> set (take i ?w)"
    then obtain j where "j < length (take i ?w)" "x = take i ?w ! j"
      by (auto simp: in_set_conv_nth)
    with that len nth[of j] show "P x" by simp
  qed
  have after: "\<forall>x\<in>set (drop (Suc i) ?w). P x" if "\<forall>j. i < j \<and> j < n \<longrightarrow> P (lines ! j)" for i P
  proof
    fix x assume "x \<in> set (drop (Suc i) ?w)"
    then obtain j where j: "j < length (drop (Suc i) ?w)" "x = drop (Suc i) ?w ! j"
      by (auto simp: in_set_conv_nth)
    then have lt: "Suc i + j < n" using len by simp
    then have "drop (Suc i) ?w ! j = lines ! (Suc i + j)"
      using len nth[of "Suc i + j"] by simp
    moreover from that lt have "P (lines ! (Suc i + j))" by simp
    ultimately show "P x" using j(2) by simp
  qed
  have all: "\<forall>x\<in>set ?w. P x" if "\<forall>j<n. P (lines ! j)" for P
  proof
    fix x assume "x \<in> set ?w"
    then obtain j where "j < length ?w" "x = ?w ! j" by (auto simp: in_set_conv_nth)
    with that len nth[of j] show "P x" by simp
  qed
  have A: "findZip lines = Some z"
    if "i < n" "hasStateAndZip (lines ! i)" "zipOf (lines ! i) = Some z"
       "\<forall>j<i. \<not> hasStateAndZip (lines ! j)" for i z
  proof -
    from before[OF that(4) that(1)] that(2,3)
    have "zipFirstPass (take i ?w @ lines ! i # drop (Suc i) ?w) = Some z"
      by (rule zipFirstPass_first)
    with split[OF that(1)] have "zipFirstPass ?w = Some z" by simp
    then show ?thesis by (simp add: findZip_def)
  qed
  have B: "findZip lines = zipSecondPass (rev ?w)" if "\<forall>i<n. \<not> hasStateAndZip (lines ! i)"
    using zipFirstPass_none[OF all[OF that]] by (simp add: findZip_def)
  have B1: "zipSecondPass (rev ?w) = Some z"
    if "i < n" "zipOf (lines ! i) = Some z" "\<forall>j. i < j \<and> j < n \<longrightarrow> zipOf (lines ! j) = None"
    for i z
  proof -
    have "rev ?w = rev (drop (Suc i) ?w) @ lines ! i # rev (take i ?w)"
      using split[OF that(1)] by (metis append_Cons append_Nil append_assoc rev.simps(2) rev_append)
    moreover have "\<forall>x\<in>set (rev (drop (Suc i) ?w)). zipOf x = None"
      using after[OF that(3)] by simp
    ultimately show ?thesis
      using that(2) by (simp add: zipSecondPass_skip)
  qed
  have B2: "findZip lines = None" if none: "\<forall>i<n. zipOf (lines ! i) = None"
  proof -
    from none have "\<forall>i<n. \<not> hasStateAndZip (lines ! i)"
      by (auto simp: hasStateAndZip_def zipOf_None_iff)
    from B[OF this] all[OF none] show ?thesis by (simp add: zipSecondPass_none)
  qed
  show ?thesis
    using A B B1 B2 by (intro conjI allI impI) auto
qed

theorem C8_zip_extractor_witness:
  "findZip [''Acme Corp'', ''Springfield, IL 62704'', ''Tel 55555''] = Some ''62704''
   \<and> findZip [''Springfield, IL 62704''] = Some ''62704''
   \<and> findZip [''PO Box 11111'', ''Zip 22222'', ''Thank you''] = Some ''22222''"
proof -
  let ?a = "[''Acme Corp'', ''Springfield, IL 62704'', ''Tel 55555'']"
  let ?b = "[''PO Box 11111'', ''Zip 22222'', ''Thank you'']"
  have a0: "\<not> hasStateAndZip ''Acme Corp''" by code_simp
  have a1: "hasStateAndZip ''Springfield, IL 62704''" by code_simp
  have a2: "zipOf ''Springfield, IL 62704'' = Some ''62704''" by code_simp
  have b0: "\<not> hasStateAndZip ''PO Box 11111''" "\<not> hasStateAndZip ''Zip 22222''"
    "\<not> hasStateAndZip ''Thank you''" by code_simp+
  have b1: "zipOf ''Zip 22222'' = Some ''22222''" "zipOf ''Thank you'' = None" by code_simp+
  have na: "(3::nat) = min 50 (length ?a)" and nb: "(3::nat) = min 50 (length ?b)" by simp_all
  have a3: "\<forall>j<1. \<not> hasStateAndZip (?a ! j)" using a0 by simp
  have "(1::nat) < 3 \<and> hasStateAndZip (?a ! 1) \<and> zipOf (?a ! 1) = Some ''62704''
        \<and> (\<forall>j<1. \<not> hasStateAndZip (?a ! j))"
    using a1 a2 a3 by simp
  with C8_zip_extractor[OF na] have "findZip ?a = Some ''62704''" by blast
  moreover
  have b2: "\<forall>k<3. \<not> hasStateAndZip (?b ! k)"
  proof (intro allI impI)
    fix k :: nat assume "k < 3"
    then consider "k = 0" | "k = 1" | "k = 2" by linarith
    then show "\<not> hasStateAndZip (?b ! k)" using b0 by cases simp_all
  qed
  have b3: "\<forall>j. 1 < j \<and> j < 3 \<longrightarrow> zipOf (?b ! j) = None"
  proof (intro allI impI)
    fix j :: nat assume "1 < j \<and> j < 3"
    then have "j = 2" by simp
    then show "zipOf (?b ! j) = None" using b1 by simp
  qed
  have "(\<forall>k<3. \<not> hasStateAndZip (?b ! k)) \<and> (1::nat) < 3 \<and> zipOf (?b ! 1) = Some ''22222''
        \<and> (\<forall>j. 1 < j \<and> j < 3 \<longrightarrow> zipOf (?b ! j) = None)"
    using b1 b2 b3 by simp
  with C8_zip_extractor[OF nb] have "findZip ?b = Some ''22222''" by blast
  moreover have "findZip [''Springfield, IL 62704''] = Some ''62704''" by code_simp
  ultimately show ?thesis by blast
qed

section \<open>Malformed requests\<close>

text \<open>What the body of the handler answers, once the module loads.\<close>

lemma handler_no_headers:
  "ev_headers ev = None \<Longrightarrow> handler env ev = (errorResponse 500 (undefinedHeadersMessage env), [])"
  by (simp add: handler_def)

lemma handler_not_json:
  "ev_headers ev = Some hs \<Longrightarrow> \<not> isJson hs \<Longrightarrow>
   handler env ev = (errorResponse 400 sendJsonMessage, [])"
  by (simp add: handler_def)

lemma handler_missing_base64:
  assumes "ev_headers ev = Some hs" "isJson hs" "jsonParse env (bodyText ev) = Inr body"
    and "body \<noteq> JNull"
    and "case base64Prop body of None \<Rightarrow> True | Some v \<Rightarrow> \<not> truthy v"
  shows "handler env ev = (errorResponse 400 missingBase64Message, [CallJsonParse (bodyText ev)])"
  using assms by (cases body) (auto simp: handler_def Let_def split: option.splits)

lemma handler_null_body:
  assumes "ev_headers ev = Some hs" "isJson hs" "jsonParse env (bodyText ev) = Inr JNull"
  shows "handler env ev
           = (errorResponse 500 (nullDestructureMessage env), [CallJsonParse (bodyText ev)])"
  using assms by (simp add: handler_def Let_def)

lemma errorBody_sendJson:
  "errorBody sendJsonMessage
     = ''{'' @ [dquote] @ ''error'' @ [dquote] @ '':'' @ [dquote]
       @ ''Send JSON: { filename, mimeType, base64 }'' @ [dquote] @ ''}''"
  by code_simp

lemma errorBody_missingBase64:
  "errorBody missingBase64Message
     = ''{'' @ [dquote] @ ''error'' @ [dquote] @ '':'' @ [dquote]
       @ ''Missing '' @ [CHR 0x27] @ ''base64'' @ [CHR 0x27] @ '' PDF content'' @ [dquote] @ ''}''"
  by code_simp

lemma rejections_distinct:
  "errorResponse 400 sendJsonMessage \<noteq> errorResponse 400 missingBase64Message"
  by (simp add: errorResponse_def errorBody_sendJson errorBody_missingBase64)

lemma module_does_not_load: "\<not> moduleLoads"
  by (simp add: moduleLoads_def handlerDeclarations_def)

lemma jsonRequest_headers:
  "ev_headers (jsonRequest b) = Some [''content-type'' \<mapsto> ''application/json'']"
  by (simp add: jsonRequest_def)

lemma isJson_application_json: "isJson [''content-type'' \<mapsto> ''application/json'']"
  by (simp add: isJson_def)

lemma jsonRequest_body: "b \<noteq> [] \<Longrightarrow> bodyText (jsonRequest b) = b"
  by (simp add: jsonRequest_def bodyText_def)

text \<open>
  C9. The handler misses what the claim says, twice. As the file is written, the block
  of the handler declares \<open>zip\<close> twice, so the module does not load and no request is
  answered by the handler, not even one that is not tagged as JSON. Once the module
  loads (the archive named apart), a request that is not tagged as JSON is answered 400
  with the message asking for JSON, and a request tagged as JSON whose body is \<open>{}\<close>,
  \<open>5\<close> or \<open>[]\<close> is answered 400 with the message about the missing \<open>base64\<close>, with
  no call but the one to \<open>JSON.parse\<close>; but the body \<open>null\<close>, which has no
  \<open>base64\<close> field either, throws in the destructuring, before the test of \<open>base64\<close>,
  and is answered 500.
\<close>

theorem C9_malformed_requests:
  "invoke env ev = ModuleLoadError
   \<and> handler testEnv (jsonRequest ''null'')
       = (errorResponse 500 ''Cannot destructure property of null'', [CallJsonParse ''null''])
   \<and> statusCode (errorResponse 500 ''Cannot destructure property of null'') = 500
   \<and> base64Prop JNull = None
   \<and> handler testEnv (jsonRequest ''{}'')
       = (errorResponse 400 missingBase64Message, [CallJsonParse ''{}''])
   \<and> handler testEnv (jsonRequest ''5'')
       = (errorResponse 400 missingBase64Message, [CallJsonParse ''5''])
   \<and> handler testEnv (jsonRequest ''[]'')
       = (errorResponse 400 missingBase64Message, [CallJsonParse ''[]''])
   \<and> handler testEnv \<lparr>ev_headers = Some [''content-type'' \<mapsto> ''text/plain''],
                        ev_body = Some ''hello''\<rparr>
       = (errorResponse 400 sendJsonMessage, [])"
proof (intro conjI)
  show "invoke env ev = ModuleLoadError"
    by (simp add: invoke_def module_does_not_load)
next
  have "jsonParse testEnv ''null'' = Inr JNull"
    and "nullDestructureMessage testEnv = ''Cannot destructure property of null''"
    by (simp_all add: testEnv_def)
  with handler_null_body[where ev = "jsonRequest ''null''" and env = testEnv]
    jsonRequest_headers[of "''null''"] isJson_application_json jsonRequest_body[of "''null''"]
  show "handler testEnv (jsonRequest ''null'')
       = (errorResponse 500 ''Cannot destructure property of null'', [CallJsonParse ''null''])"
    by simp
next
  show "statusCode (errorResponse 500 ''Cannot destructure property of null'') = 500"
    by (simp add: errorResponse_def)
next
  show "base64Prop JNull = None"
    by (simp add: base64Prop_def)
next
  have "jsonParse testEnv ''{}'' = Inr (JObject [])" by (simp add: testEnv_def)
  with handler_missing_base64[where ev = "jsonRequest ''{}''" and env = testEnv
      and body = "JObject []"]
    jsonRequest_headers[of "''{}''"] isJson_application_json jsonRequest_body[of "''{}''"]
  show "handler testEnv (jsonRequest ''{}'')
       = (errorResponse 400 missingBase64Message, [CallJsonParse ''{}''])"
    by (simp add: base64Prop_def)
next
  have "jsonParse testEnv ''5'' = Inr (JNumber (Num 5))" by (simp add: testEnv_def)
  with handler_missing_base64[where ev = "jsonRequest ''5''" and env = testEnv
      and body = "JNumber (Num 5)"]
    jsonRequest_headers[of "''5''"] isJson_application_json jsonRequest_body[of "''5''"]
  show "handler testEnv (jsonRequest ''5'')
       = (errorResponse 400 missingBase64Message, [CallJsonParse ''5''])"
    by (simp add: base64Prop_def)
next
  have "jsonParse testEnv ''[]'' = Inr (JArray [])" by (simp add: testEnv_def)
  with handler_missing_base64[where ev = "jsonRequest ''[]''" and env = testEnv
      and body = "JArray []"]
    jsonRequest_headers[of "''[]''"] isJson_application_json jsonRequest_body[of "''[]''"]
  show "handler testEnv (jsonRequest ''[]'')
       = (errorResponse 400 missingBase64Message, [CallJsonParse ''[]''])"
    by (simp add: base64Prop_def)
next
  show "handler testEnv \<lparr>ev_headers = Some [''content-type'' \<mapsto> ''text/plain''],
                        ev_body = Some ''hello''\<rparr>
       = (errorResponse 400 sendJsonMessage, [])"
    by (rule handler_not_json[where hs = "[''content-type'' \<mapsto> ''text/plain'']"])
      (simp_all add: isJson_def)
qed

section \<open>The invariant of the item list\<close>

text \<open>
  C10. Throughout row parsing the item list keeps the order of the lines: for every
  header index and every way of cutting the lines in two, the items after the first part
  are still there, at the same places, when the second part has been read as well; of
  these only the last one may differ, and only by a longer description; the items made
  from the second part come after them. One turn of the loop leaves the list as it is, or
  appends one item, or appends text to the description of the last item; it never removes
  an item and never touches another one.
\<close>

theorem C10_item_list_invariant:
  "extendsItems (parseLines ls1 h) (parseLines (ls1 @ ls2) h)
   \<and> (\<forall>out raw out'. rowStep out raw = Some out' \<longrightarrow>
          (out' = out
           \<or> (\<exists>it. out' = out @ [it])
           \<or> (out \<noteq> []
               \<and> (\<exists>sfx. out' = butlast out
                          @ [(last out)\<lparr>description := description (last out) @ sfx\<rparr>]))))"
proof
  show "extendsItems (parseLines ls1 h) (parseLines (ls1 @ ls2) h)"
  proof (cases "h < 0")
    case True
    then show ?thesis by (simp add: parseLines_def extendsItems_refl)
  next
    case False
    let ?n = "nat (h + 1)"
    have "drop ?n (ls1 @ ls2) = drop ?n ls1 @ drop (?n - length ls1) ls2" by simp
    then have "parseLoop [] (drop ?n (ls1 @ ls2))
        = (if list_ex shouldStopRow (drop ?n ls1) then parseLoop [] (drop ?n ls1)
           else parseLoop (parseLoop [] (drop ?n ls1)) (drop (?n - length ls1) ls2))"
      by (simp only: parseLoop_append)
    with False show ?thesis
      by (simp add: parseLines_def extendsItems_refl parseLoop_extends)
  qed
next
  show "\<forall>out raw out'. rowStep out raw = Some out' \<longrightarrow>
          (out' = out
           \<or> (\<exists>it. out' = out @ [it])
           \<or> (out \<noteq> []
               \<and> (\<exists>sfx. out' = butlast out
                          @ [(last out)\<lparr>description := description (last out) @ sfx\<rparr>])))"
    using rowStep_shape by blast
qed

theorem C10_item_list_invariant_witness:
  "parseLines [''ACTIVITY DESCRIPTION QTY RATE AMOUNT'', ''LBR Labor 2 50.00 100.00'',
               ''on site''] 0
     = [\<lparr>activity = ''LBR'', description = ''Labor on site'', qty = Some (Num 2),
         rate = Some (Num 50), amount = Some (Num 100)\<rparr>]
   \<and> parseLines ([''ACTIVITY DESCRIPTION QTY RATE AMOUNT'', ''LBR Labor 2 50.00 100.00'',
                   ''on site''] @ [''and travel'', ''MAT Paint 1 8.00 8.00'']) 0
     = [\<lparr>activity = ''LBR'', description = ''Labor on site and travel'', qty = Some (Num 2),
         rate = Some (Num 50), amount = Some (Num 100)\<rparr>,
        \<lparr>activity = ''MAT'', description = ''Paint'', qty = Some (Num 1),
         rate = Some (Num 8), amount = Some (Num 8)\<rparr>]
   \<and> extendsItems
        [\<lparr>activity = ''LBR'', description = ''Labor on site'', qty = Some (Num 2),
          rate = Some (Num 50), amount = Some (Num 100)\<rparr>]
        [\<lparr>activity = ''LBR'', description = ''Labor on site and travel'', qty = Some (Num 2),
          rate = Some (Num 50), amount = Some (Num 100)\<rparr>,
         \<lparr>activity = ''MAT'', description = ''Paint'', qty = Some (Num 1),
          rate = Some (Num 8), amount = Some (Num 8)\<rparr>]"
proof -
  have a: "parseLines [''ACTIVITY DESCRIPTION QTY RATE AMOUNT'', ''LBR Labor 2 50.00 100.00'',
               ''on site''] 0
     = [\<lparr>activity = ''LBR'', description = ''Labor on site'', qty = Some (Num 2),
         rate = Some (Num 50), amount = Some (Num 100)\<rparr>]"
    by code_simp
  have b: "parseLines ([''ACTIVITY DESCRIPTION QTY RATE AMOUNT'', ''LBR Labor 2 50.00 100.00'',
                   ''on site''] @ [''and travel'', ''MAT Paint 1 8.00 8.00'']) 0
     = [\<lparr>activity = ''LBR'', description = ''Labor on site and travel'', qty = Some (Num 2),
         rate = Some (Num 50), amount = Some (Num 100)\<rparr>,
        \<lparr>activity = ''MAT'', description = ''Paint'', qty = Some (Num 1),
         rate = Some (Num 8), amount = Some (Num 8)\<rparr>]"
    by code_simp
  from C10_item_list_invariant[of
      "[''ACTIVITY DESCRIPTION QTY RATE AMOUNT'', ''LBR Labor 2 50.00 100.00'', ''on site'']"
      0 "[''and travel'', ''MAT Paint 1 8.00 8.00'']"]
  have "extendsItems
      (parseLines [''ACTIVITY DESCRIPTION QTY RATE AMOUNT'', ''LBR Labor 2 50.00 100.00'',
                   ''on site''] 0)
      (parseLines ([''ACTIVITY DESCRIPTION QTY RATE AMOUNT'', ''LBR Labor 2 50.00 100.00'',
                    ''on site''] @ [''and travel'', ''MAT Paint 1 8.00 8.00'']) 0)"
    by (rule conjunct1)
  then show ?thesis
    unfolding a b using a b by simp
qed

end
